theory Spec2Isabelle
  imports Complex_Main
begin

section \<open>Thermal calculations for flat insulation sheets (src/utils/sheets.ts)\<close>

text \<open>
  The TypeScript source computes with the \<open>number\<close> type. The embedding takes a
  \<open>number\<close> to be a real: every arithmetic operation is the exact one, without the
  rounding of IEEE doubles. The non-finite results of a double division (\<open>NaN\<close>,
  \<open>Infinity\<close>) have no real counterpart, so wherever a divisor of the source can be
  zero the model either makes the non-finite result explicit (the field \<open>decrease\<close>
  below) or the theorems assume what keeps the divisor away from zero
  (a positive conductivity).
\<close>

subsection \<open>Data model\<close>

text \<open>
  \<open>lambdaData\<close> is the \<open>Record<string, number>\<close> found under \<open>.lambda\<close> of a material:
  temperature anchors (the keys) to conductivities. The keys are the decimal strings
  of the anchors, so that \<open>String(t)\<close> of an anchor \<open>t\<close> is its key and a key is
  identified with the number it denotes. The order of the pairs is irrelevant to the
  source, which sorts the keys.

  \<open>SHEET_MATERIALS\<close> is imported from \<open>./constants\<close>; that table is taken as a
  parameter \<open>M\<close> of every function that reads it: \<open>M material = None\<close> when the
  table has no such material.
\<close>

type_synonym lambdaData = "(real \<times> real) list"

type_synonym materials = "string \<Rightarrow> lambdaData option"

text \<open>
  The source throws \<open>new Error(message)\<close> at six places; one constructor stands
  for each message.
\<close>

datatype error =
    HNotPositive
  | ThicknessNotPositive
  | LambdaNotPositive
  | AreaNotPositive
  | DewPointNotBelowAmbient
  | TargetAboveAmbient

text \<open>The two error kinds of the specification, and the kind of each thrown error.\<close>

datatype error_kind = InvalidInput | PhysicallyImpossible

fun kind_of :: "error \<Rightarrow> error_kind" where
  "kind_of HNotPositive = InvalidInput"
| "kind_of ThicknessNotPositive = InvalidInput"
| "kind_of LambdaNotPositive = InvalidInput"
| "kind_of AreaNotPositive = InvalidInput"
| "kind_of DewPointNotBelowAmbient = PhysicallyImpossible"
| "kind_of TargetAboveAmbient = PhysicallyImpossible"

subsection \<open>interpolateSheetLambda\<close>

text \<open>
  The \<open>for\<close> loop over \<open>i = 0 .. temps.length - 2\<close>: the first adjacent pair of
  anchors that brackets \<open>temp\<close> gives the interpolated value and ends the loop;
  when no pair does, \<open>lambda\<close> keeps its initial value. The reads
  \<open>lambdaData[String(t0)]\<close> and \<open>lambdaData[String(t1)]\<close> are reads at keys of the
  record (\<open>temps\<close> is made of its keys), so they always hit.
\<close>

fun interpolate_loop :: "lambdaData \<Rightarrow> real \<Rightarrow> real list \<Rightarrow> real \<Rightarrow> real" where
  "interpolate_loop lambdaData temp (t0 # t1 # ts) lambda =
     (if temp \<ge> t0 \<and> temp \<le> t1 then
        (let l0 = the (map_of lambdaData t0);
             l1 = the (map_of lambdaData t1)
         in l0 + (l1 - l0) * (temp - t0) / (t1 - t0))
      else interpolate_loop lambdaData temp (t1 # ts) lambda)"
| "interpolate_loop lambdaData temp ts lambda = lambda"

definition interpolateSheetLambda :: "materials \<Rightarrow> real \<Rightarrow> string \<Rightarrow> real" where
  "interpolateSheetLambda M temp material =
     (case M material of
        None \<Rightarrow> 0.036
      | Some lambdaData \<Rightarrow>
          (let temps = sort (map fst lambdaData) in
           case map_of lambdaData temp of
             Some l \<Rightarrow> l
           | None \<Rightarrow>
               (let lambda = (case temps of
                                [] \<Rightarrow> 0.036
                              | t # _ \<Rightarrow> (case map_of lambdaData t of
                                            None \<Rightarrow> 0.036
                                          | Some l \<Rightarrow> l))
                in interpolate_loop lambdaData temp temps lambda)))"

subsection \<open>getFlatU\<close>

definition getFlatU :: "real \<Rightarrow> real \<Rightarrow> real \<Rightarrow> error + real" where
  "getFlatU h thicknessMm lambda =
     (if h \<le> 0 then Inl HNotPositive
      else if thicknessMm \<le> 0 then Inl ThicknessNotPositive
      else if lambda \<le> 0 then Inl LambdaNotPositive
      else
        (let R_conv = 1 / h;
             R_ins = (thicknessMm / 1000) / lambda;
             R_total = R_conv + R_ins
         in Inr (1 / R_total)))"

subsection \<open>computeSheetHeatLoss\<close>

text \<open>
  The returned object. \<open>decrease\<close> is \<open>((Q0 - Q) / Q0) * 100\<close>; when the two
  temperatures are equal both \<open>Q0 - Q\<close> and \<open>Q0\<close> are zero and the source's value is
  \<open>NaN\<close>, which the model writes \<open>None\<close>. The local variables \<open>U\<close>, \<open>Q\<close>,
  \<open>decrease\<close> and \<open>costPerHour\<close> of the source are written \<open>u\<close>, \<open>q\<close>, \<open>dec\<close>
  and \<open>cost\<close>, the names being those of the fields.
\<close>

record heat_loss =
  meanLambda :: real
  U :: real
  Q :: real
  decrease :: "real option"
  costPerHour :: real

definition computeSheetHeatLoss ::
  "materials \<Rightarrow> real \<Rightarrow> real \<Rightarrow> real \<Rightarrow> real \<Rightarrow> string \<Rightarrow> real \<Rightarrow> real \<Rightarrow> error + heat_loss" where
  "computeSheetHeatLoss M ambientTemp mediumTemp thicknessMm areaM2 material h costPerKWh =
     (if areaM2 \<le> 0 then Inl AreaNotPositive
      else if thicknessMm \<le> 0 then Inl ThicknessNotPositive
      else if h \<le> 0 then Inl HNotPositive
      else
        (let lambdaTemp = ambientTemp + 5;
             lambda = interpolateSheetLambda M lambdaTemp material
         in case getFlatU h thicknessMm lambda of
              Inl e \<Rightarrow> Inl e
            | Inr u \<Rightarrow>
                (let deltaT = \<bar>mediumTemp - ambientTemp\<bar>;
                     q = u * areaM2 * deltaT;
                     deltaT_for_h = \<bar>mediumTemp - ambientTemp\<bar>;
                     alpha_conv_raw = 1.32 * (deltaT_for_h powr 0.33);
                     alpha_conv = max alpha_conv_raw (1 / 0.13);
                     epsilon = 0.93;
                     alpha_rad_q0 = epsilon * 1.428;
                     h0 = alpha_conv + alpha_rad_q0;
                     U0 = h0;
                     Q0 = U0 * areaM2 * deltaT;
                     dec = (if Q0 = 0 then None else Some (((Q0 - q) / Q0) * 100));
                     cost = (q / 1000) * costPerKWh
                 in Inr \<lparr>meanLambda = lambda, U = u, Q = q, decrease = dec,
                          costPerHour = cost\<rparr>)))"

subsection \<open>getRecommendedSheetThickness\<close>

text \<open>
  The \<open>for ... of\<close> loop over the candidates: an error thrown by \<open>getFlatU\<close>
  leaves the loop and the function; \<open>Inr None\<close> is the loop running to its end.
\<close>

fun recommend_loop :: "real \<Rightarrow> real \<Rightarrow> real \<Rightarrow> real \<Rightarrow> real list \<Rightarrow> error + real option" where
  "recommend_loop h lambda deltaT target [] = Inr None"
| "recommend_loop h lambda deltaT target (t # ts) =
     (case getFlatU h t lambda of
        Inl e \<Rightarrow> Inl e
      | Inr u \<Rightarrow>
          (let q = u * deltaT
           in if q \<le> target then Inr (Some t)
              else recommend_loop h lambda deltaT target ts))"

definition candidates :: "real list" where
  "candidates = [6, 9, 10, 13, 19, 25, 32, 40, 50]"

text \<open>
  The last parameter has the default value 15: \<open>None\<close> is the argument left out.
  \<open>_areaM2\<close> is unused by the source.
\<close>

definition getRecommendedSheetThickness ::
  "materials \<Rightarrow> real \<Rightarrow> real \<Rightarrow> real \<Rightarrow> string \<Rightarrow> real \<Rightarrow> real option \<Rightarrow> error + real" where
  "getRecommendedSheetThickness M ambientTemp mediumTemp areaM2 material h targetHeatFluxWPerM2 =
     (let target = (case targetHeatFluxWPerM2 of None \<Rightarrow> 15 | Some x \<Rightarrow> x);
          lambda = interpolateSheetLambda M ambientTemp material;
          deltaT = \<bar>mediumTemp - ambientTemp\<bar>
      in case recommend_loop h lambda deltaT target candidates of
           Inl e \<Rightarrow> Inl e
         | Inr (Some t) \<Rightarrow> Inr t
         | Inr None \<Rightarrow> Inr (last candidates))"

subsection \<open>calculateMinimumSheetThickness\<close>

text \<open>The closure \<open>surfaceTempAt\<close>, with the variables it captures as parameters.\<close>

definition surfaceTempAt :: "real \<Rightarrow> real \<Rightarrow> real \<Rightarrow> real \<Rightarrow> real \<Rightarrow> real" where
  "surfaceTempAt ambientTemp mediumTemp lambda R_conv thicknessMm =
     (let R_ins = (thicknessMm / 1000) / lambda;
          R_total = R_ins + R_conv;
          q = (mediumTemp - ambientTemp) / R_total
      in ambientTemp + q * R_conv)"

definition minMm :: real where "minMm = 0.01"
definition maxMm :: real where "maxMm = 100"
definition step :: real where "step = 0.01"

text \<open>The \<open>while (hi - lo > step)\<close> loop; its value is the final \<open>hi\<close>.\<close>

function bisect :: "(real \<Rightarrow> real) \<Rightarrow> real \<Rightarrow> real \<Rightarrow> real \<Rightarrow> real" where
  "bisect f targetSurfaceTemp lo hi =
     (if hi - lo > step then
        (let mid = (lo + hi) / 2;
             tMid = f mid
         in if tMid \<ge> targetSurfaceTemp then bisect f targetSurfaceTemp lo mid
            else bisect f targetSurfaceTemp mid hi)
      else hi)"
  by pat_completeness auto
termination
proof -
  have halve_ceiling: "nat \<lceil>w / 2\<rceil> < nat \<lceil>w\<rceil>" if "1 < w" for w :: real
  proof -
    have a: "2 \<le> \<lceil>w\<rceil>" using that by linarith
    have "w / 2 \<le> real_of_int \<lceil>w\<rceil> / 2" by (simp add: divide_right_mono)
    also have "\<dots> \<le> real_of_int (\<lceil>w\<rceil> - 1)" using a by simp
    finally have "\<lceil>w / 2\<rceil> \<le> \<lceil>w\<rceil> - 1" by (simp only: ceiling_le_iff)
    with a show ?thesis by linarith
  qed
  show ?thesis
  proof (relation "measure (\<lambda>(f, tg, lo, hi). nat \<lceil>(hi - lo) * 100\<rceil>)")
    show "wf (measure (\<lambda>(f :: real \<Rightarrow> real, tg :: real, lo :: real, hi :: real). nat \<lceil>(hi - lo) * 100\<rceil>))"
      by simp
  next
    fix f :: "real \<Rightarrow> real" and targetSurfaceTemp lo hi mid tMid :: real
    assume w: "step < hi - lo" and m: "mid = (lo + hi) / 2"
    have "1 < (hi - lo) * 100" using w unfolding step_def by simp
    then have "nat \<lceil>(hi - lo) * 100 / 2\<rceil> < nat \<lceil>(hi - lo) * 100\<rceil>"
      by (rule halve_ceiling)
    moreover have "(mid - lo) * 100 = (hi - lo) * 100 / 2" using m by simp
    ultimately have "nat \<lceil>(mid - lo) * 100\<rceil> < nat \<lceil>(hi - lo) * 100\<rceil>"
      by (simp only:)
    then show "((f, targetSurfaceTemp, lo, mid), (f, targetSurfaceTemp, lo, hi))
        \<in> measure (\<lambda>(f, tg, lo, hi). nat \<lceil>(hi - lo) * 100\<rceil>)"
      by (simp only: in_measure prod.case)
  next
    fix f :: "real \<Rightarrow> real" and targetSurfaceTemp lo hi mid tMid :: real
    assume w: "step < hi - lo" and m: "mid = (lo + hi) / 2"
    have "1 < (hi - lo) * 100" using w unfolding step_def by simp
    then have "nat \<lceil>(hi - lo) * 100 / 2\<rceil> < nat \<lceil>(hi - lo) * 100\<rceil>"
      by (rule halve_ceiling)
    moreover have "(hi - mid) * 100 = (hi - lo) * 100 / 2" using m by simp
    ultimately have "nat \<lceil>(hi - mid) * 100\<rceil> < nat \<lceil>(hi - lo) * 100\<rceil>"
      by (simp only:)
    then show "((f, targetSurfaceTemp, mid, hi), (f, targetSurfaceTemp, lo, hi))
        \<in> measure (\<lambda>(f, tg, lo, hi). nat \<lceil>(hi - lo) * 100\<rceil>)"
      by (simp only: in_measure prod.case)
  qed
qed

declare bisect.simps [simp del]

text \<open>
  \<open>Number(x.toFixed(2))\<close>: the multiple of \<open>1/100\<close> nearest to \<open>x\<close>, the larger
  one (in magnitude) of two equally near.
\<close>

definition toFixed2 :: "real \<Rightarrow> real" where
  "toFixed2 x =
     (if x < 0 then - (real_of_int \<lfloor>(- x) * 100 + 1 / 2\<rfloor> / 100)
      else real_of_int \<lfloor>x * 100 + 1 / 2\<rfloor> / 100)"

text \<open>The last parameter has the default value 0.3: \<open>None\<close> is the argument left out.\<close>

definition calculateMinimumSheetThickness ::
  "materials \<Rightarrow> real \<Rightarrow> real \<Rightarrow> real \<Rightarrow> string \<Rightarrow> real \<Rightarrow> real option \<Rightarrow> error + real" where
  "calculateMinimumSheetThickness M ambientTemp mediumTemp dewPoint material h safetyMargin =
     (let safetyMarginC = (case safetyMargin of None \<Rightarrow> 0.3 | Some x \<Rightarrow> x)
      in if h \<le> 0 then Inl HNotPositive
         else if dewPoint \<ge> ambientTemp then Inl DewPointNotBelowAmbient
         else
           (let targetSurfaceTemp = dewPoint + safetyMarginC
            in if targetSurfaceTemp > ambientTemp then Inl TargetAboveAmbient
               else
                 (let meanTemp = (ambientTemp + mediumTemp) / 2;
                      lambda = interpolateSheetLambda M meanTemp material;
                      R_conv = 1 / h;
                      f = surfaceTempAt ambientTemp mediumTemp lambda R_conv
                  in if f maxMm < targetSurfaceTemp then Inr 50
                     else
                       (let hi = bisect f targetSurfaceTemp minMm maxMm;
                            roundedUp = real_of_int \<lceil>hi / step\<rceil> * step
                        in Inr (toFixed2 roundedUp)))))"

subsection \<open>getNominalSheetThicknessRecommendation\<close>

definition getNominalSheetThicknessRecommendation :: "real \<Rightarrow> real" where
  "getNominalSheetThicknessRecommendation minimumThickness =
     (if minimumThickness > 37.99 then 50
      else if minimumThickness > 29.99 then 40
      else if minimumThickness > 22.99 then 32
      else if minimumThickness > 16.99 then 25
      else if minimumThickness > 10.99 then 19
      else if minimumThickness > 7 then 13
      else if minimumThickness > 4.99 then 9
      else 6)"

subsection \<open>getFlatU in binary64 arithmetic\<close>

text \<open>
  The definitions above compute with exact reals. A \<open>number\<close> of the source is an
  IEEE 754 binary64 value and every operation rounds its exact result to the nearest
  such value, ties to the even significand. Where a property depends on that
  rounding, \<open>getFlatU\<close> is taken again with each of its four operations rounded.

  Every quantity of \<open>getFlatU\<close> after its validation is non-negative, so a value is
  either a non-negative real or \<open>+Infinity\<close>.
\<close>

datatype f64 = Fin real | PInf

fun f64_le :: "f64 \<Rightarrow> f64 \<Rightarrow> bool" where
  "f64_le (Fin a) (Fin b) = (a \<le> b)"
| "f64_le x PInf = True"
| "f64_le PInf (Fin b) = False"

fun nonneg64 :: "f64 \<Rightarrow> bool" where
  "nonneg64 (Fin a) = (0 \<le> a)"
| "nonneg64 PInf = True"

text \<open>
  \<open>ilog2 x\<close> is the binary exponent of a positive \<open>x\<close>: the integer \<open>e\<close> with
  \<open>2 powi e \<le> x < 2 powi (e + 1)\<close>, found by halving down to \<open>[1, 2)\<close> or doubling
  up to it.
\<close>

function lg_up :: "real \<Rightarrow> int" where
  "lg_up x = (if 2 \<le> x then lg_up (x / 2) + 1 else 0)"
  by pat_completeness auto
termination
proof (relation "measure (\<lambda>x. nat \<lfloor>x\<rfloor>)")
  show "wf (measure (\<lambda>x :: real. nat \<lfloor>x\<rfloor>))" by simp
next
  fix x :: real
  assume "2 \<le> x"
  then have "nat \<lfloor>x / 2\<rfloor> < nat \<lfloor>x\<rfloor>" by linarith
  then show "(x / 2, x) \<in> measure (\<lambda>x. nat \<lfloor>x\<rfloor>)" by (simp only: in_measure)
qed

function lg_down :: "real \<Rightarrow> int" where
  "lg_down x = (if 0 < x \<and> x < 1 then lg_down (2 * x) - 1 else 0)"
  by pat_completeness auto
termination
proof (relation "measure (\<lambda>x. nat \<lceil>1 / x\<rceil>)")
  show "wf (measure (\<lambda>x :: real. nat \<lceil>1 / x\<rceil>))" by simp
next
  fix x :: real
  assume x: "0 < x \<and> x < 1"
  then have one: "1 < 1 / x" by simp
  then have a: "2 \<le> \<lceil>1 / x\<rceil>" by linarith
  have "1 / (2 * x) = (1 / x) / 2" by simp
  also have "\<dots> \<le> real_of_int \<lceil>1 / x\<rceil> / 2" by (simp add: divide_right_mono)
  also have "\<dots> \<le> real_of_int (\<lceil>1 / x\<rceil> - 1)" using a by simp
  finally have "\<lceil>1 / (2 * x)\<rceil> \<le> \<lceil>1 / x\<rceil> - 1" by (simp only: ceiling_le_iff)
  with a have "nat \<lceil>1 / (2 * x)\<rceil> < nat \<lceil>1 / x\<rceil>" by linarith
  then show "(2 * x, x) \<in> measure (\<lambda>x. nat \<lceil>1 / x\<rceil>)" by (simp only: in_measure)
qed

declare lg_up.simps [simp del] lg_down.simps [simp del]

definition ilog2 :: "real \<Rightarrow> int" where
  "ilog2 x = (if 1 \<le> x then lg_up x else lg_down x)"

text \<open>Rounding to the nearest integer, a tie going to the even one.\<close>

definition rne :: "real \<Rightarrow> int" where
  "rne x =
     (let f = \<lfloor>x\<rfloor>; d = x - real_of_int f
      in if d < 1 / 2 then f
         else if 1 / 2 < d then f + 1
         else if even f then f else f + 1)"

text \<open>
  The binary64 value nearest to a non-negative real \<open>x\<close>. The significand has 53
  bits, so the spacing of the values around \<open>x\<close> is \<open>2 powi (e - 52)\<close> for the exponent
  \<open>e\<close> of \<open>x\<close>, which is not taken below \<open>- 1022\<close> (the subnormal values have the
  spacing \<open>2 powi (- 1074)\<close>); a result of \<open>2 powi 1024\<close> or more overflows to
  \<open>+Infinity\<close>.
\<close>

definition round64 :: "real \<Rightarrow> f64" where
  "round64 x =
     (if x = 0 then Fin 0
      else
        (let e = max (ilog2 x) (- 1022);
             q = 2 powi (e - 52);
             y = real_of_int (rne (x / q)) * q
         in if 2 powi 1024 \<le> y then PInf else Fin y))"

text \<open>\<open>val64\<close> is the rounded value before the overflow test.\<close>

definition val64 :: "real \<Rightarrow> real" where
  "val64 x = real_of_int (rne (x / 2 powi (max (ilog2 x) (- 1022) - 52)))
               * 2 powi (max (ilog2 x) (- 1022) - 52)"

text \<open>
  Division by a positive finite number, addition, and the reciprocal \<open>1 / x\<close>, on
  non-negative values: \<open>Infinity\<close> divided by a finite number or added to anything is
  \<open>Infinity\<close>, \<open>1 / Infinity\<close> is 0 and \<open>1 / 0\<close> is \<open>Infinity\<close>.
\<close>

fun div64 :: "f64 \<Rightarrow> real \<Rightarrow> f64" where
  "div64 (Fin a) y = round64 (a / y)"
| "div64 PInf y = PInf"

fun add64 :: "f64 \<Rightarrow> f64 \<Rightarrow> f64" where
  "add64 (Fin a) (Fin b) = round64 (a + b)"
| "add64 x y = PInf"

fun recip64 :: "f64 \<Rightarrow> f64" where
  "recip64 (Fin r) = (if r = 0 then PInf else round64 (1 / r))"
| "recip64 PInf = Fin 0"

text \<open>
  The source with its arithmetic rounded: \<open>1 / h\<close>, \<open>thicknessMm / 1000\<close>, the
  quotient by \<open>lambda\<close>, the sum and the final reciprocal. The arguments stand for
  numbers the function receives, which are binary64 values themselves.
\<close>

definition getFlatU64 :: "real \<Rightarrow> real \<Rightarrow> real \<Rightarrow> error + f64" where
  "getFlatU64 h thicknessMm lambda =
     (if h \<le> 0 then Inl HNotPositive
      else if thicknessMm \<le> 0 then Inl ThicknessNotPositive
      else if lambda \<le> 0 then Inl LambdaNotPositive
      else
        (let R_conv = round64 (1 / h);
             R_ins = div64 (round64 (thicknessMm / 1000)) lambda;
             R_total = add64 R_conv R_ins
         in Inr (recip64 R_total)))"

subsection \<open>Well-formed material tables\<close>

text \<open>
  The data invariant of a thermal profile: the keys of the record are distinct (they
  are the property names of an object) and every conductivity is positive. A material
  absent from the table has no profile to constrain.
\<close>

definition wf_lambdaData :: "lambdaData \<Rightarrow> bool" where
  "wf_lambdaData lambdaData =
     (distinct (map fst lambdaData) \<and> list_all (\<lambda>(t, l). 0 < l) lambdaData)"

definition wf_material :: "materials \<Rightarrow> string \<Rightarrow> bool" where
  "wf_material M material =
     (case M material of None \<Rightarrow> True | Some lambdaData \<Rightarrow> wf_lambdaData lambdaData)"

text \<open>A concrete table with one material, for evaluating the functions.\<close>

definition sample_materials :: materials where
  "sample_materials material =
     (if material = ''ST'' then Some [(0, 0.034), (20, 0.036), (40, 0.038)] else None)"

section \<open>Auxiliary facts\<close>

subsection \<open>Interpolated conductivities are positive\<close>

text \<open>A read of the record at one of its keys hits.\<close>

lemma anchor_reads_hit:
  assumes "t \<in> set (sort (map fst lambdaData))"
  shows "map_of lambdaData t \<noteq> None"
  using assms by (simp add: map_of_eq_None_iff)

lemma wf_lookup_pos:
  assumes "wf_lambdaData ld" and "t \<in> fst ` set ld"
  shows "\<exists>l. map_of ld t = Some l \<and> 0 < l"
proof -
  from assms(2) obtain l where "map_of ld t = Some l"
    by (metis domD dom_map_of_conv_image_fst)
  moreover from this have "(t, l) \<in> set ld" by (rule map_of_SomeD)
  with assms(1) have "0 < l" by (auto simp: wf_lambdaData_def list_all_iff)
  ultimately show ?thesis by simp
qed

lemma lerp_pos:
  fixes l0 l1 t0 t1 temp :: real
  assumes "0 < l0" "0 < l1" "t0 \<le> temp" "temp \<le> t1" "t0 < t1"
  shows "0 < l0 + (l1 - l0) * (temp - t0) / (t1 - t0)"
proof -
  define r where "r = (temp - t0) / (t1 - t0)"
  have r: "0 \<le> r" "r \<le> 1" using assms by (simp_all add: r_def)
  have "l0 + (l1 - l0) * (temp - t0) / (t1 - t0) = l0 + (l1 - l0) * r"
    by (simp add: r_def)
  also have "\<dots> = l0 * (1 - r) + l1 * r"
    by (simp add: algebra_simps)
  finally have "l0 + (l1 - l0) * (temp - t0) / (t1 - t0) = l0 * (1 - r) + l1 * r" .
  moreover have "0 < l0 * (1 - r) + l1 * r"
  proof (cases "r = 0")
    case True then show ?thesis using assms by simp
  next
    case False
    with r have "0 < r" by simp
    then have "0 < l1 * r" using assms by simp
    moreover have "0 \<le> l0 * (1 - r)" using assms r by simp
    ultimately show ?thesis by linarith
  qed
  ultimately show ?thesis by simp
qed

lemma interpolate_loop_pos:
  assumes "wf_lambdaData ld" "sorted ts" "distinct ts" "set ts \<subseteq> fst ` set ld" "0 < lambda"
  shows "0 < interpolate_loop ld temp ts lambda"
  using assms
proof (induction ld temp ts lambda rule: interpolate_loop.induct)
  case (1 ld temp t0 t1 ts lambda)
  show ?case
  proof (cases "temp \<ge> t0 \<and> temp \<le> t1")
    case True
    from "1.prems" obtain l0 where l0: "map_of ld t0 = Some l0" "0 < l0"
      using wf_lookup_pos [of ld t0] by auto
    from "1.prems" obtain l1 where l1: "map_of ld t1 = Some l1" "0 < l1"
      using wf_lookup_pos [of ld t1] by auto
    from "1.prems" have "t0 < t1" by auto
    with True l0 l1 show ?thesis by (simp add: lerp_pos)
  next
    case False
    with "1.IH" "1.prems" show ?thesis by auto
  qed
qed simp_all

lemma interpolateSheetLambda_pos:
  assumes "wf_material M material"
  shows "0 < interpolateSheetLambda M temp material"
proof (cases "M material")
  case None
  then show ?thesis by (simp add: interpolateSheetLambda_def)
next
  case (Some ld)
  with assms have wf: "wf_lambdaData ld" by (simp add: wf_material_def)
  show ?thesis
  proof (cases "map_of ld temp")
    case (Some l)
    then have "(temp, l) \<in> set ld" by (rule map_of_SomeD)
    with wf have "0 < l" by (auto simp: wf_lambdaData_def list_all_iff)
    with Some \<open>M material = Some ld\<close> show ?thesis by (simp add: interpolateSheetLambda_def)
  next
    case None
    define lam0 where "lam0 = (case sort (map fst ld) of [] \<Rightarrow> 0.036
        | t # _ \<Rightarrow> (case map_of ld t of None \<Rightarrow> 0.036 | Some l \<Rightarrow> l))"
    have "0 < lam0"
    proof (cases "sort (map fst ld)")
      case Nil then show ?thesis by (simp add: lam0_def)
    next
      case (Cons t ts)
      then have "t \<in> set (sort (map fst ld))" by simp
      then have "t \<in> fst ` set ld" by simp
      from wf_lookup_pos [OF wf this] Cons show ?thesis by (auto simp: lam0_def)
    qed
    moreover have "distinct (sort (map fst ld))" using wf by (simp add: wf_lambdaData_def)
    ultimately have "0 < interpolate_loop ld temp (sort (map fst ld)) lam0"
      using wf by (intro interpolate_loop_pos) auto
    with None \<open>M material = Some ld\<close> show ?thesis
      by (simp add: interpolateSheetLambda_def lam0_def Let_def)
  qed
qed

subsection \<open>Out-of-range temperatures leave the loop without a bracket\<close>

lemma interpolate_loop_outside:
  assumes "(\<forall>t \<in> set ts. temp < t) \<or> (\<forall>t \<in> set ts. t < temp)"
  shows "interpolate_loop ld temp ts lambda = lambda"
  using assms
proof (induction ld temp ts lambda rule: interpolate_loop.induct)
  case (1 ld temp t0 t1 ts lambda)
  then have nb: "\<not> (temp \<ge> t0 \<and> temp \<le> t1)" by auto
  from "1.prems" have rest: "(\<forall>t \<in> set (t1 # ts). temp < t) \<or> (\<forall>t \<in> set (t1 # ts). t < temp)"
    by auto
  from nb have "interpolate_loop ld temp (t0 # t1 # ts) lambda
                = interpolate_loop ld temp (t1 # ts) lambda"
    by (simp only: interpolate_loop.simps if_False)
  with "1.IH" [OF nb rest] show ?case by simp
qed simp_all

lemma sorted_head_Min:
  fixes t :: real
  assumes "sort xs = t # ts"
  shows "t = Min (set xs)"
proof -
  have "sorted (t # ts)" using assms by (metis sorted_sort)
  then have "\<forall>x \<in> set (t # ts). t \<le> x" by auto
  moreover have "set (t # ts) = set xs" using assms by (metis set_sort)
  ultimately have "\<forall>x \<in> set xs. t \<le> x" "t \<in> set xs" by auto
  then show ?thesis by (intro Min_eqI [symmetric]) auto
qed

subsection \<open>The flat-wall resistance\<close>

lemma getFlatU_ok:
  assumes "0 < h" "0 < t" "0 < l"
  shows "getFlatU h t l = Inr (1 / (1 / h + (t / 1000) / l))"
  using assms by (simp add: getFlatU_def Let_def)

lemma R_total_pos:
  fixes h t l :: real
  assumes "0 < h" "0 \<le> t" "0 < l"
  shows "0 < 1 / h + (t / 1000) / l"
proof -
  have "0 < 1 / h" using assms by simp
  moreover have "0 \<le> (t / 1000) / l" using assms by simp
  ultimately show ?thesis by linarith
qed

lemma recip_less:
  fixes a b :: real
  assumes "0 < a" "a < b"
  shows "1 / b < 1 / a"
  using assms by (simp add: field_simps)

lemma h0_pos: "0 < max (1.32 * (d powr 0.33)) (1 / 0.13) + 0.93 * (1.428 :: real)"
proof -
  have "(0::real) < 1 / 0.13" by simp
  then have "0 < max (1.32 * (d powr 0.33)) (1 / 0.13 :: real)" by (simp add: less_max_iff_disj)
  then show ?thesis by simp
qed

subsection \<open>The candidate loop is a first-fit search\<close>

lemma recommend_loop_find:
  assumes "0 < h" "0 < lam" "\<forall>t \<in> set cs. 0 < t"
  shows "recommend_loop h lam dT target cs
         = Inr (find (\<lambda>t. 1 / (1 / h + (t / 1000) / lam) * dT \<le> target) cs)"
  using assms(3)
proof (induction cs)
  case Nil
  show ?case by simp
next
  case (Cons t cs)
  then have "0 < t" by simp
  with assms have "getFlatU h t lam = Inr (1 / (1 / h + (t / 1000) / lam))"
    by (simp add: getFlatU_ok)
  with Cons show ?case by (simp add: Let_def)
qed

lemma find_sorted_least:
  fixes xs :: "real list"
  assumes "sorted xs" "find P xs = Some x"
  shows "x \<in> set xs \<and> P x \<and> (\<forall>y \<in> set xs. y < x \<longrightarrow> \<not> P y)"
  using assms
proof (induction xs)
  case Nil
  then show ?case by simp
next
  case (Cons a xs)
  show ?case
  proof (cases "P a")
    case True
    with Cons.prems have "x = a" by simp
    with True Cons.prems show ?thesis by auto
  next
    case False
    with Cons.prems have "find P xs = Some x" "sorted xs" by simp_all
    with Cons.IH have "x \<in> set xs \<and> P x \<and> (\<forall>y \<in> set xs. y < x \<longrightarrow> \<not> P y)" by simp
    with False show ?thesis by auto
  qed
qed

subsection \<open>Bisection and the surface temperature\<close>

lemma bisect_hi:
  assumes "lo < hi" "target \<le> f hi"
  shows "target \<le> f (bisect f target lo hi) \<and> lo < bisect f target lo hi
         \<and> bisect f target lo hi \<le> hi"
  using assms
proof (induction f target lo hi rule: bisect.induct)
  case (1 f target lo hi)
  show ?case
  proof (cases "hi - lo > step")
    case False
    with "1.prems" show ?thesis by (simp add: bisect.simps [of f target lo hi])
  next
    case wide: True
    define mid where "mid = (lo + hi) / 2"
    have m: "lo < mid" "mid < hi" using "1.prems"(1) by (simp_all add: mid_def)
    show ?thesis
    proof (cases "f mid \<ge> target")
      case True
      with wide have eq: "bisect f target lo hi = bisect f target lo mid"
        by (simp add: bisect.simps [of f target lo hi] mid_def Let_def)
      from "1.IH"(1) [OF wide mid_def refl True m(1) True]
      show ?thesis using m unfolding eq by simp
    next
      case False
      with wide have eq: "bisect f target lo hi = bisect f target mid hi"
        by (simp add: bisect.simps [of f target lo hi] mid_def Let_def)
      from "1.IH"(2) [OF wide mid_def refl False m(2) "1.prems"(2)]
      show ?thesis using m unfolding eq by simp
    qed
  qed
qed

lemma bisect_lo:
  assumes "lo < hi" "f lo < target"
  shows "\<exists>lo'. lo \<le> lo' \<and> lo' < bisect f target lo hi
           \<and> bisect f target lo hi - lo' \<le> step \<and> f lo' < target"
  using assms
proof (induction f target lo hi rule: bisect.induct)
  case (1 f target lo hi)
  show ?case
  proof (cases "hi - lo > step")
    case False
    with "1.prems" show ?thesis
      by (intro exI [of _ lo]) (simp add: bisect.simps [of f target lo hi])
  next
    case wide: True
    define mid where "mid = (lo + hi) / 2"
    have m: "lo < mid" "mid < hi" using "1.prems"(1) by (simp_all add: mid_def)
    show ?thesis
    proof (cases "f mid \<ge> target")
      case True
      with wide have eq: "bisect f target lo hi = bisect f target lo mid"
        by (simp add: bisect.simps [of f target lo hi] mid_def Let_def)
      from "1.IH"(1) [OF wide mid_def refl True m(1) "1.prems"(2)]
      show ?thesis unfolding eq .
    next
      case False
      with wide have eq: "bisect f target lo hi = bisect f target mid hi"
        by (simp add: bisect.simps [of f target lo hi] mid_def Let_def)
      from False have "f mid < target" by simp
      from "1.IH"(2) [OF wide mid_def refl False m(2) this]
      obtain lo' where "mid \<le> lo'" "lo' < bisect f target mid hi"
        "bisect f target mid hi - lo' \<le> step" "f lo' < target" by blast
      with m(1) show ?thesis unfolding eq by (intro exI [of _ lo']) simp
    qed
  qed
qed

lemma bisect_all_above:
  assumes "lo < hi" "\<forall>x. lo < x \<and> x \<le> hi \<longrightarrow> target \<le> f x"
  shows "lo < bisect f target lo hi \<and> bisect f target lo hi \<le> lo + step"
  using assms
proof (induction f target lo hi rule: bisect.induct)
  case (1 f target lo hi)
  show ?case
  proof (cases "hi - lo > step")
    case False
    with "1.prems" show ?thesis by (simp add: bisect.simps [of f target lo hi])
  next
    case wide: True
    define mid where "mid = (lo + hi) / 2"
    have m: "lo < mid" "mid < hi" using "1.prems"(1) by (simp_all add: mid_def)
    then have ge: "f mid \<ge> target" using "1.prems"(2) by simp
    with wide have eq: "bisect f target lo hi = bisect f target lo mid"
      by (simp add: bisect.simps [of f target lo hi] mid_def Let_def)
    have "\<forall>x. lo < x \<and> x \<le> mid \<longrightarrow> target \<le> f x" using "1.prems"(2) m by simp
    from "1.IH"(1) [OF wide mid_def refl ge m(1) this]
    show ?thesis unfolding eq .
  qed
qed

lemma surfaceTempAt_mono:
  assumes "0 < h" "0 < lam" "mediumTemp \<le> ambientTemp" "0 \<le> s" "s \<le> t"
  shows "surfaceTempAt ambientTemp mediumTemp lam (1 / h) s
         \<le> surfaceTempAt ambientTemp mediumTemp lam (1 / h) t"
proof -
  define Rs where "Rs = (s / 1000) / lam + 1 / h"
  define Rt where "Rt = (t / 1000) / lam + 1 / h"
  have "0 < 1 / h" using assms by simp
  moreover have "0 \<le> (s / 1000) / lam" using assms by simp
  ultimately have Rs: "0 < Rs" unfolding Rs_def by linarith
  have "(s / 1000) / lam \<le> (t / 1000) / lam" using assms by (simp add: divide_right_mono)
  then have le: "Rs \<le> Rt" unfolding Rs_def Rt_def by simp
  have "1 / Rt \<le> 1 / Rs" using Rs le by (simp add: frac_le)
  then have "(ambientTemp - mediumTemp) * (1 / Rt) \<le> (ambientTemp - mediumTemp) * (1 / Rs)"
    using assms(3) by (intro mult_left_mono) simp_all
  then have "(mediumTemp - ambientTemp) / Rs \<le> (mediumTemp - ambientTemp) / Rt"
    by (simp add: algebra_simps diff_divide_distrib)
  then have "(mediumTemp - ambientTemp) / Rs * (1 / h) \<le> (mediumTemp - ambientTemp) / Rt * (1 / h)"
    using assms(1) by (intro mult_right_mono) simp_all
  then show ?thesis
    unfolding surfaceTempAt_def Let_def Rs_def [symmetric] Rt_def [symmetric] by simp
qed

lemma surfaceTempAt_heating:
  assumes "0 < h" "0 < lam" "ambientTemp \<le> mediumTemp" "0 \<le> t"
  shows "ambientTemp \<le> surfaceTempAt ambientTemp mediumTemp lam (1 / h) t"
proof -
  define R where "R = (t / 1000) / lam + 1 / h"
  have "0 < 1 / h" using assms by simp
  moreover have "0 \<le> (t / 1000) / lam" using assms by simp
  ultimately have R: "0 < R" unfolding R_def by linarith
  have "0 \<le> (mediumTemp - ambientTemp) / R" using assms(3) R by simp
  
  moreover have "0 \<le> 1 / h" using assms(1) by simp
  ultimately have "0 \<le> (mediumTemp - ambientTemp) / R * (1 / h)" by (rule mult_nonneg_nonneg)
  then show ?thesis unfolding surfaceTempAt_def Let_def R_def [symmetric] by simp
qed

lemma toFixed2_hundredths:
  assumes "0 \<le> n"
  shows "toFixed2 (real_of_int n * step) = real_of_int n / 100"
proof -
  have fl: "\<lfloor>real_of_int n + 1 / 2\<rfloor> = n" by linarith
  have eq: "real_of_int n * step * 100 = real_of_int n" by (simp add: step_def)
  have "\<not> real_of_int n * step < 0" using assms by (simp add: step_def)
  then have "toFixed2 (real_of_int n * step)
             = real_of_int \<lfloor>real_of_int n * step * 100 + 1 / 2\<rfloor> / 100"
    by (simp only: toFixed2_def if_False)
  then show ?thesis by (simp only: eq fl)
qed

subsection \<open>Rounding to binary64 is monotone\<close>

lemmas lg_eval =
  lg_up.simps [of "numeral a / numeral b" for a b] lg_up.simps [of "numeral a" for a]
  lg_up.simps [of 1] lg_up.simps [of "1 / numeral b" for b]
  lg_down.simps [of "numeral a / numeral b" for a b] lg_down.simps [of "numeral a" for a]
  lg_down.simps [of 1] lg_down.simps [of "1 / numeral b" for b]

lemma pow2_succ: "2 powi (k + 1) = 2 powi k * (2::real)"
  by (rule power_int_add_1) simp

lemma lg_up_bounds:
  assumes "1 \<le> x"
  shows "2 powi (lg_up x) \<le> x \<and> x < 2 powi (lg_up x + 1)"
  using assms
proof (induction x rule: lg_up.induct)
  case (1 x)
  show ?case
  proof (cases "2 \<le> x")
    case True
    then have "1 \<le> x / 2" by simp
    with "1.IH" True have ih: "2 powi (lg_up (x / 2)) \<le> x / 2"
      "x / 2 < 2 powi (lg_up (x / 2) + 1)" by simp_all
    have eq: "lg_up x = lg_up (x / 2) + 1" using True by (simp add: lg_up.simps [of x])
    have a: "2 powi (lg_up (x / 2) + 1) = 2 powi (lg_up (x / 2)) * (2::real)"
      by (rule pow2_succ)
    have b: "2 powi (lg_up (x / 2) + 1 + 1) = 2 powi (lg_up (x / 2) + 1) * (2::real)"
      by (rule pow2_succ)
    have "2 powi (lg_up (x / 2) + 1) \<le> x" using ih(1) unfolding a by simp
    moreover have "x < 2 powi (lg_up (x / 2) + 1 + 1)" using ih(2) unfolding b by simp
    ultimately show ?thesis unfolding eq by simp
  next
    case False
    then have "lg_up x = 0" by (simp add: lg_up.simps [of x])
    with False "1.prems" show ?thesis by simp
  qed
qed

lemma lg_down_bounds:
  assumes "0 < x" "x < 1"
  shows "2 powi (lg_down x) \<le> x \<and> x < 2 powi (lg_down x + 1)"
  using assms
proof (induction x rule: lg_down.induct)
  case (1 x)
  have eq: "lg_down x = lg_down (2 * x) - 1"
    using "1.prems" by (simp add: lg_down.simps [of x])
  have step: "2 powi (k - 1 + 1) = 2 powi (k - 1) * (2::real)" for k :: int
    by (rule power_int_add_1) simp
  show ?case
  proof (cases "2 * x < 1")
    case True
    with "1.IH" "1.prems" have ih: "2 powi (lg_down (2 * x)) \<le> 2 * x"
      "2 * x < 2 powi (lg_down (2 * x) + 1)" by simp_all
    have a: "2 powi (lg_down (2 * x)) = 2 powi (lg_down (2 * x) - 1) * (2::real)"
      using step [of "lg_down (2 * x)"] by simp
    have "2 powi (lg_down (2 * x) - 1) \<le> x" using ih(1) unfolding a by simp
    moreover have "x < 2 powi (lg_down (2 * x) - 1 + 1)"
      using ih(2) unfolding step a [symmetric] pow2_succ by simp
    ultimately show ?thesis unfolding eq by simp
  next
    case False
    then have "lg_down (2 * x) = 0" by (simp add: lg_down.simps [of "2 * x"])
    then have "lg_down x = - 1" using eq by simp
    moreover have "(2::real) powi (- 1) = 1 / 2" by (simp add: power_int_minus_divide)
    ultimately show ?thesis using False "1.prems" by simp
  qed
qed

lemma ilog2_bounds:
  assumes "0 < x"
  shows "2 powi (ilog2 x) \<le> x \<and> x < 2 powi (ilog2 x + 1)"
proof (cases "1 \<le> x")
  case True
  then show ?thesis using lg_up_bounds [of x] by (simp add: ilog2_def)
next
  case False
  then show ?thesis using lg_down_bounds [of x] assms by (simp add: ilog2_def)
qed

lemma ilog2_mono:
  assumes "0 < x" "x \<le> y"
  shows "ilog2 x \<le> ilog2 y"
proof (rule ccontr)
  assume "\<not> ilog2 x \<le> ilog2 y"
  then have "ilog2 y + 1 \<le> ilog2 x" by simp
  then have "(2::real) powi (ilog2 y + 1) \<le> 2 powi (ilog2 x)"
    by (intro power_int_increasing) simp_all
  also have "\<dots> \<le> x" using ilog2_bounds [OF assms(1)] by simp
  also have "\<dots> \<le> y" by (rule assms(2))
  also have "\<dots> < 2 powi (ilog2 y + 1)" using ilog2_bounds [of y] assms by simp
  finally show False by simp
qed

lemma rne_bounds: "\<lfloor>x\<rfloor> \<le> rne x \<and> rne x \<le> \<lfloor>x\<rfloor> + 1"
  by (simp add: rne_def Let_def)

lemma rne_of_int: "rne (real_of_int n) = n"
  by (simp add: rne_def Let_def)

lemma rne_mono:
  assumes "a \<le> b"
  shows "rne a \<le> rne b"
proof (cases "\<lfloor>a\<rfloor> < \<lfloor>b\<rfloor>")
  case True
  have "rne a \<le> \<lfloor>a\<rfloor> + 1" using rne_bounds [of a] by simp
  also have "\<dots> \<le> \<lfloor>b\<rfloor>" using True by simp
  also have "\<dots> \<le> rne b" using rne_bounds [of b] by simp
  finally show ?thesis .
next
  case False
  moreover have "\<lfloor>a\<rfloor> \<le> \<lfloor>b\<rfloor>" using assms by (rule floor_mono)
  ultimately have eq: "\<lfloor>a\<rfloor> = \<lfloor>b\<rfloor>" by simp
  have "a - real_of_int \<lfloor>b\<rfloor> \<le> b - real_of_int \<lfloor>b\<rfloor>" using assms by simp
  then show ?thesis unfolding rne_def Let_def eq by auto
qed

lemma f64_le_refl: "f64_le x x"
  by (cases x) simp_all

lemma ulp_scale:
  fixes e :: int
  shows "2 powi (e - 52) * 2 ^ 52 = (2::real) powi e"
    and "2 powi (e - 52) * 2 ^ 53 = (2::real) powi (e + 1)"
    and "0 < (2::real) powi (e - 52)"
proof -
  have "(2::real) powi (e - 52 + 52) = 2 powi (e - 52) * 2 powi 52"
    by (rule power_int_add) simp
  then show "2 powi (e - 52) * 2 ^ 52 = (2::real) powi e" by simp
  have "(2::real) powi (e - 52 + 53) = 2 powi (e - 52) * 2 powi 53"
    by (rule power_int_add) simp
  moreover have "e - 52 + 53 = e + 1" by simp
  ultimately show "2 powi (e - 52) * 2 ^ 53 = (2::real) powi (e + 1)" by simp
  show "0 < (2::real) powi (e - 52)" by simp
qed

lemma round64_val64:
  "round64 x = (if x = 0 then Fin 0 else if 2 powi 1024 \<le> val64 x then PInf else Fin (val64 x))"
  by (simp add: round64_def val64_def Let_def)

lemma val64_nonneg:
  assumes "0 < x"
  shows "0 \<le> val64 x"
proof -
  have "0 \<le> x / 2 powi (max (ilog2 x) (- 1022) - 52)" using assms by simp
  then have "0 \<le> \<lfloor>x / 2 powi (max (ilog2 x) (- 1022) - 52)\<rfloor>" by simp
  then have "0 \<le> rne (x / 2 powi (max (ilog2 x) (- 1022) - 52))"
    using rne_bounds [of "x / 2 powi (max (ilog2 x) (- 1022) - 52)"] by linarith
  then show ?thesis unfolding val64_def by simp
qed

lemma val64_mono:
  assumes "0 < x" "x \<le> y"
  shows "val64 x \<le> val64 y"
proof -
  define ex where "ex = max (ilog2 x) (- 1022)"
  define ey where "ey = max (ilog2 y) (- 1022)"
  define qx :: real where "qx = 2 powi (ex - 52)"
  define qy :: real where "qy = 2 powi (ey - 52)"
  have y: "0 < y" using assms by simp
  have vx: "val64 x = real_of_int (rne (x / qx)) * qx" by (simp add: val64_def qx_def ex_def)
  have vy: "val64 y = real_of_int (rne (y / qy)) * qy" by (simp add: val64_def qy_def ey_def)
  have q: "0 < qx" "0 < qy" by (simp_all add: qx_def qy_def)
  have le: "ex \<le> ey" using ilog2_mono [OF assms] by (simp add: ex_def ey_def)
  show ?thesis
  proof (cases "ex = ey")
    case True
    then have "qx = qy" by (simp add: qx_def qy_def)
    moreover have "x / qy \<le> y / qy" using assms q by (simp add: divide_right_mono)
    then have "rne (x / qy) \<le> rne (y / qy)" by (rule rne_mono)
    ultimately show ?thesis unfolding vx vy using q by simp
  next
    case False
    with le have lt: "ex + 1 \<le> ey" by simp
    then have "ey \<noteq> - 1022" by (simp add: ex_def)
    then have ey: "ey = ilog2 y" by (simp add: ey_def max_def split: if_splits)
    have "2 powi ey \<le> y" using ilog2_bounds [OF y] by (simp add: ey)
    moreover have sy: "qy * 2 ^ 52 = 2 powi ey" unfolding qy_def by (rule ulp_scale(1))
    ultimately have "qy * 2 ^ 52 \<le> y" by (simp only:)
    then have "real_of_int (2 ^ 52) \<le> y / qy" using q by (simp add: field_simps)
    then have "rne (real_of_int (2 ^ 52)) \<le> rne (y / qy)" by (rule rne_mono)
    then have "2 ^ 52 \<le> rne (y / qy)" by (simp only: rne_of_int)
    then have "real_of_int (2 ^ 52) \<le> real_of_int (rne (y / qy))" by (simp only: of_int_le_iff)
    then have "real_of_int (2 ^ 52) * qy \<le> real_of_int (rne (y / qy)) * qy"
      using q by (intro mult_right_mono) simp_all
    moreover have "real_of_int (2 ^ 52) * qy = 2 powi ey"
      using sy by (simp add: mult.commute)
    ultimately have lower: "2 powi ey \<le> val64 y" unfolding vy by (simp only:)
    have "x < 2 powi (ilog2 x + 1)" using ilog2_bounds [OF assms(1)] by simp
    also have "\<dots> \<le> 2 powi (ex + 1)" by (intro power_int_increasing) (simp_all add: ex_def)
    finally have "x \<le> 2 powi (ex + 1)" by simp
    moreover have sx: "qx * 2 ^ 53 = 2 powi (ex + 1)" unfolding qx_def by (rule ulp_scale(2))
    ultimately have "x \<le> qx * 2 ^ 53" by (simp only:)
    then have "x / qx \<le> real_of_int (2 ^ 53)" using q by (simp add: field_simps)
    then have "rne (x / qx) \<le> rne (real_of_int (2 ^ 53))" by (rule rne_mono)
    then have "rne (x / qx) \<le> 2 ^ 53" by (simp only: rne_of_int)
    then have "real_of_int (rne (x / qx)) \<le> real_of_int (2 ^ 53)" by (simp only: of_int_le_iff)
    then have "real_of_int (rne (x / qx)) * qx \<le> real_of_int (2 ^ 53) * qx"
      using q by (intro mult_right_mono) simp_all
    moreover have "real_of_int (2 ^ 53) * qx = 2 powi (ex + 1)"
      using sx by (simp add: mult.commute)
    ultimately have "val64 x \<le> 2 powi (ex + 1)" unfolding vx by (simp only:)
    also have "\<dots> \<le> 2 powi ey" using lt by (intro power_int_increasing) simp_all
    also note lower
    finally show ?thesis .
  qed
qed

lemma round64_nonneg:
  assumes "0 \<le> x"
  shows "nonneg64 (round64 x)"
  using assms val64_nonneg [of x] by (auto simp: round64_val64)

lemma round64_mono:
  assumes "0 \<le> x" "x \<le> y"
  shows "f64_le (round64 x) (round64 y)"
proof (cases "x = 0")
  case True
  have "nonneg64 (round64 y)" using assms by (intro round64_nonneg) simp
  then show ?thesis using True by (cases "round64 y") (simp_all add: round64_val64)
next
  case False
  with assms have x: "0 < x" and y: "y \<noteq> 0" by simp_all
  from val64_mono [OF x assms(2)] show ?thesis
    using False y by (simp add: round64_val64)
qed

lemma val64_lower:
  assumes "2 powi (- 1022) \<le> x"
  shows "2 powi (ilog2 x) \<le> val64 x"
proof -
  have x: "0 < x" using assms by (rule less_le_trans [rotated]) simp
  define e where "e = ilog2 x"
  define q :: real where "q = 2 powi (e - 52)"
  have "\<not> e < - 1022"
  proof
    assume "e < - 1022"
    then have "e + 1 \<le> - 1022" by simp
    then have "(2::real) powi (e + 1) \<le> 2 powi (- 1022)"
      by (intro power_int_increasing) simp_all
    moreover have "x < 2 powi (e + 1)" using ilog2_bounds [OF x] by (simp add: e_def)
    ultimately show False using assms by simp
  qed
  then have m: "max (ilog2 x) (- 1022) = e" by (simp add: e_def)
  have v: "val64 x = real_of_int (rne (x / q)) * q" by (simp add: val64_def m q_def)
  have q: "0 < q" by (simp add: q_def)
  have s: "q * 2 ^ 52 = 2 powi e" unfolding q_def by (rule ulp_scale(1))
  have "2 powi e \<le> x" using ilog2_bounds [OF x] by (simp add: e_def)
  with s have "q * 2 ^ 52 \<le> x" by (simp only:)
  then have "real_of_int (2 ^ 52) \<le> x / q" using q by (simp add: field_simps)
  then have "rne (real_of_int (2 ^ 52)) \<le> rne (x / q)" by (rule rne_mono)
  then have "2 ^ 52 \<le> rne (x / q)" by (simp only: rne_of_int)
  then have "real_of_int (2 ^ 52) \<le> real_of_int (rne (x / q))" by (simp only: of_int_le_iff)
  then have "real_of_int (2 ^ 52) * q \<le> real_of_int (rne (x / q)) * q"
    using q by (intro mult_right_mono) simp_all
  moreover have "real_of_int (2 ^ 52) * q = 2 powi e" using s by (simp add: mult.commute)
  ultimately show ?thesis unfolding v e_def [symmetric] by (simp only:)
qed

lemma round64_overflow:
  assumes "2 powi 1024 \<le> x"
  shows "round64 x = PInf"
proof -
  have x: "0 < x" using assms by (rule less_le_trans [rotated]) simp
  have "(2::real) powi (- 1022) \<le> 2 powi 1024" by (intro power_int_increasing) simp_all
  with assms have low: "2 powi (- 1022) \<le> x" by simp
  have "\<not> ilog2 x < 1024"
  proof
    assume "ilog2 x < 1024"
    then have "ilog2 x + 1 \<le> 1024" by simp
    then have "(2::real) powi (ilog2 x + 1) \<le> 2 powi 1024"
      by (intro power_int_increasing) simp_all
    moreover have "x < 2 powi (ilog2 x + 1)" using ilog2_bounds [OF x] by simp
    ultimately show False using assms by simp
  qed
  then have "(2::real) powi 1024 \<le> 2 powi (ilog2 x)"
    by (intro power_int_increasing) simp_all
  also have "\<dots> \<le> val64 x" using low by (rule val64_lower)
  finally show ?thesis using x by (simp add: round64_val64)
qed

lemma div64_nonneg:
  assumes "nonneg64 a" "0 < y"
  shows "nonneg64 (div64 a y)"
  using assms by (cases a) (simp_all add: round64_nonneg)

lemma div64_mono_left:
  assumes "f64_le a b" "nonneg64 a" "0 < y"
  shows "f64_le (div64 a y) (div64 b y)"
proof (cases a)
  case PInf
  with assms(1) show ?thesis by (cases b) simp_all
next
  case (Fin x)
  show ?thesis
  proof (cases b)
    case PInf
    then show ?thesis by simp
  next
    case (Fin z)
    with assms \<open>a = Fin x\<close> have "0 \<le> x / y" "x / y \<le> z / y"
      by (simp_all add: divide_right_mono)
    then show ?thesis using Fin \<open>a = Fin x\<close> by (simp add: round64_mono)
  qed
qed

lemma div64_antimono_right:
  assumes "nonneg64 a" "0 < y1" "y1 \<le> y2"
  shows "f64_le (div64 a y2) (div64 a y1)"
proof (cases a)
  case PInf
  then show ?thesis by simp
next
  case (Fin x)
  with assms have "0 \<le> x / y2" "x / y2 \<le> x / y1"
    by (simp_all add: divide_left_mono)
  then show ?thesis using Fin by (simp add: round64_mono)
qed

lemma add64_nonneg:
  assumes "nonneg64 a" "nonneg64 b"
  shows "nonneg64 (add64 a b)"
  using assms by (cases a; cases b) (simp_all add: round64_nonneg)

lemma add64_mono_right:
  assumes "f64_le a b" "nonneg64 c" "nonneg64 a"
  shows "f64_le (add64 c a) (add64 c b)"
proof (cases c)
  case PInf
  then show ?thesis by simp
next
  case (Fin z)
  show ?thesis
  proof (cases b)
    case PInf
    then show ?thesis using Fin by simp
  next
    case fb: (Fin y)
    with assms(1) obtain x where fa: "a = Fin x" by (cases a) simp_all
    with assms fb Fin have "0 \<le> z + x" "z + x \<le> z + y" by simp_all
    then show ?thesis using Fin fa fb by (simp add: round64_mono)
  qed
qed

lemma recip64_antimono:
  assumes "f64_le a b" "nonneg64 a"
  shows "f64_le (recip64 b) (recip64 a)"
proof (cases b)
  case PInf
  have "nonneg64 (recip64 a)"
  proof (cases a)
    case (Fin x)
    with assms(2) have "0 \<le> 1 / x" by simp
    then show ?thesis using Fin by (simp add: round64_nonneg)
  qed simp
  then show ?thesis using PInf by (cases "recip64 a") simp_all
next
  case fb: (Fin y)
  with assms(1) obtain x where fa: "a = Fin x" by (cases a) simp_all
  with assms fb have xy: "0 \<le> x" "x \<le> y" by simp_all
  show ?thesis
  proof (cases "x = 0")
    case True
    then show ?thesis using fa by simp
  next
    case False
    with xy have "0 < x" "0 < y" by simp_all
    with xy have "0 \<le> 1 / y" "1 / y \<le> 1 / x" by (simp_all add: frac_le)
    then show ?thesis using fa fb \<open>0 < x\<close> \<open>0 < y\<close> by (simp add: round64_mono)
  qed
qed

section \<open>The nominal thickness table\<close>

text \<open>
  C1 (as the specification states it, refuted): the specification expects
  \<open>nominalThicknessRecommendation(7) = 13\<close>. The breakpoint is the strict comparison
  \<open>minimumThickness > 7\<close>, which 7 itself does not pass: the result at 7 is 9.
\<close>

theorem nominal_at_7_counterexample:
  "getNominalSheetThicknessRecommendation 7 = 9 \<and>
   getNominalSheetThicknessRecommendation 7 \<noteq> 13"
  by (simp add: getNominalSheetThicknessRecommendation_def)

text \<open>
  C1 (amended): the three boundary values of the nominal thickness table are
  \<open>nominal(11) = 19\<close>, \<open>nominal(7) = 9\<close> and \<open>nominal(4.99) = 6\<close>.
\<close>

theorem nominal_boundary_values:
  "getNominalSheetThicknessRecommendation 11 = 19 \<and>
   getNominalSheetThicknessRecommendation 7 = 9 \<and>
   getNominalSheetThicknessRecommendation 4.99 = 6"
  by (simp add: getNominalSheetThicknessRecommendation_def)

text \<open>
  C10: for every input the nominal thickness is one of 6, 9, 13, 19, 25, 32, 40, 50;
  it is never 10 and never above 50; and the function is monotone non-decreasing.
\<close>

theorem nominal_range_and_monotone:
  "getNominalSheetThicknessRecommendation x \<in> {6, 9, 13, 19, 25, 32, 40, 50} \<and>
   getNominalSheetThicknessRecommendation x \<noteq> 10 \<and>
   getNominalSheetThicknessRecommendation x \<le> 50 \<and>
   (x \<le> y \<longrightarrow>
      getNominalSheetThicknessRecommendation x \<le> getNominalSheetThicknessRecommendation y)"
  by (simp add: getNominalSheetThicknessRecommendation_def)

theorem nominal_range_and_monotone_witness:
  "(5::real) \<le> 8 \<and>
   getNominalSheetThicknessRecommendation 5 \<in> {6, 9, 13, 19, 25, 32, 40, 50} \<and>
   getNominalSheetThicknessRecommendation 5 = 9 \<and>
   getNominalSheetThicknessRecommendation 8 = 13 \<and>
   getNominalSheetThicknessRecommendation 5 \<le> getNominalSheetThicknessRecommendation 8"
  using nominal_range_and_monotone [of 5 8]
  by (simp add: getNominalSheetThicknessRecommendation_def)

section \<open>Conductivity outside the anchors\<close>

text \<open>
  C2 (as the specification states it, refuted): at or above the highest anchor the
  result is claimed to be the lowest anchor's conductivity. At the highest anchor
  itself the exact-match test returns that anchor's own conductivity: in the sample
  table the anchors are 0, 20 and 40, and at 40 the result is 0.038, not the 0.034
  of the anchor 0.
\<close>

theorem interpolate_at_highest_anchor_counterexample:
  "interpolateSheetLambda sample_materials 40 ''ST'' = 0.038 \<and>
   sample_materials ''ST'' = Some [(0, 0.034), (20, 0.036), (40, 0.038)] \<and>
   interpolateSheetLambda sample_materials 40 ''ST'' \<noteq> 0.034"
  by (simp add: interpolateSheetLambda_def sample_materials_def)

text \<open>
  C2 (amended): for a material with a non-empty profile, every temperature strictly
  below the lowest anchor and every temperature strictly above the highest anchor
  gives the lowest anchor's conductivity; the highest anchor itself gives its own
  conductivity.
\<close>

theorem interpolate_out_of_range:
  assumes "M material = Some lambdaData" "lambdaData \<noteq> []" "distinct (map fst lambdaData)"
  shows "(temp < Min (fst ` set lambdaData) \<or> Max (fst ` set lambdaData) < temp \<longrightarrow>
            map_of lambdaData (Min (fst ` set lambdaData))
              = Some (interpolateSheetLambda M temp material)) \<and>
         (temp = Max (fst ` set lambdaData) \<longrightarrow>
            map_of lambdaData (Max (fst ` set lambdaData))
              = Some (interpolateSheetLambda M temp material))"
proof (intro conjI impI)
  let ?K = "fst ` set lambdaData"
  have fin: "finite ?K" "?K \<noteq> {}" using assms(2) by simp_all
  assume out: "temp < Min ?K \<or> Max ?K < temp"
  then have notkey: "temp \<notin> ?K" using fin by (auto simp: not_less)
  then have none: "map_of lambdaData temp = None" by (simp add: map_of_eq_None_iff)
  from out have sides: "(\<forall>t \<in> set (sort (map fst lambdaData)). temp < t) \<or>
                        (\<forall>t \<in> set (sort (map fst lambdaData)). t < temp)"
    using fin by auto
  obtain t ts where srt: "sort (map fst lambdaData) = t # ts"
    using assms(2) by (cases "sort (map fst lambdaData)") (auto dest: arg_cong [where f = length])
  then have t: "t = Min ?K" using sorted_head_Min [of "map fst lambdaData" t ts] by simp
  then have "t \<in> ?K" using fin by (metis Min_in)
  then obtain l where l: "map_of lambdaData t = Some l"
    by (metis domD dom_map_of_conv_image_fst)
  have "interpolateSheetLambda M temp material = l"
    using assms(1) none srt l interpolate_loop_outside [OF sides]
    by (simp add: interpolateSheetLambda_def Let_def)
  with l t show "map_of lambdaData (Min ?K) = Some (interpolateSheetLambda M temp material)"
    by simp
next
  let ?K = "fst ` set lambdaData"
  have fin: "finite ?K" "?K \<noteq> {}" using assms(2) by simp_all
  assume "temp = Max ?K"
  then have "temp \<in> ?K" using fin by (metis Max_in)
  then obtain l where l: "map_of lambdaData temp = Some l"
    by (metis domD dom_map_of_conv_image_fst)
  then have "interpolateSheetLambda M temp material = l"
    using assms(1) by (simp add: interpolateSheetLambda_def Let_def)
  with l \<open>temp = Max ?K\<close>
  show "map_of lambdaData (Max ?K) = Some (interpolateSheetLambda M temp material)"
    by simp
qed

theorem interpolate_out_of_range_witness:
  "sample_materials ''ST'' = Some [(0, 0.034), (20, 0.036), (40, 0.038)] \<and>
   [(0, 0.034), (20, 0.036), (40, 0.038 :: real)] \<noteq> [] \<and>
   distinct (map fst [(0 :: real, 0.034 :: real), (20, 0.036), (40, 0.038)]) \<and>
   Min (fst ` set [(0 :: real, 0.034 :: real), (20, 0.036), (40, 0.038)]) = 0 \<and>
   Max (fst ` set [(0 :: real, 0.034 :: real), (20, 0.036), (40, 0.038)]) = 40 \<and>
   interpolateSheetLambda sample_materials (-5) ''ST'' = 0.034 \<and>
   interpolateSheetLambda sample_materials 45 ''ST'' = 0.034 \<and>
   interpolateSheetLambda sample_materials 40 ''ST'' = 0.038"
proof -
  have m: "sample_materials ''ST'' = Some [(0, 0.034), (20, 0.036), (40, 0.038)]"
    by (simp add: sample_materials_def)
  have d: "distinct (map fst [(0 :: real, 0.034 :: real), (20, 0.036), (40, 0.038)])" by simp
  have a: "map_of [(0 :: real, 0.034 :: real), (20, 0.036), (40, 0.038)] 0
           = Some (interpolateSheetLambda sample_materials (-5) ''ST'')"
    using interpolate_out_of_range [of sample_materials "''ST''"
        "[(0, 0.034), (20, 0.036), (40, 0.038)]" "-5"] m d by simp
  have b: "map_of [(0 :: real, 0.034 :: real), (20, 0.036), (40, 0.038)] 0
           = Some (interpolateSheetLambda sample_materials 45 ''ST'')"
    using interpolate_out_of_range [of sample_materials "''ST''"
        "[(0, 0.034), (20, 0.036), (40, 0.038)]" 45] m d by simp
  have c: "map_of [(0 :: real, 0.034 :: real), (20, 0.036), (40, 0.038)] 40
           = Some (interpolateSheetLambda sample_materials 40 ''ST'')"
    using interpolate_out_of_range [of sample_materials "''ST''"
        "[(0, 0.034), (20, 0.036), (40, 0.038)]" 40] m d by simp
  from a b c m show ?thesis by simp
qed

section \<open>The U-value\<close>

text \<open>
  With exact arithmetic \<open>getFlatU\<close> is strictly decreasing in the thickness and
  strictly increasing in the conductivity.
\<close>

lemma getFlatU_exact_strictly_monotone:
  assumes "0 < h"
  shows "(0 < l \<and> 0 < t1 \<and> t1 < t2 \<longrightarrow>
            (\<exists>u1 u2. getFlatU h t1 l = Inr u1 \<and> getFlatU h t2 l = Inr u2 \<and> u2 < u1)) \<and>
         (0 < t \<and> 0 < l1 \<and> l1 < l2 \<longrightarrow>
            (\<exists>u1 u2. getFlatU h t l1 = Inr u1 \<and> getFlatU h t l2 = Inr u2 \<and> u1 < u2))"
proof (intro conjI impI)
  assume a: "0 < l \<and> 0 < t1 \<and> t1 < t2"
  then have "(t1 / 1000) / l < (t2 / 1000) / l"
    by (simp add: divide_strict_right_mono)
  then have "1 / h + (t1 / 1000) / l < 1 / h + (t2 / 1000) / l" by simp
  moreover have "0 < 1 / h + (t1 / 1000) / l"
    using assms a by (intro R_total_pos) simp_all
  ultimately have "1 / (1 / h + (t2 / 1000) / l) < 1 / (1 / h + (t1 / 1000) / l)"
    using assms
    by (intro recip_less)
  moreover have "0 < t2" using a by simp
  ultimately show "\<exists>u1 u2. getFlatU h t1 l = Inr u1 \<and> getFlatU h t2 l = Inr u2 \<and> u2 < u1"
    using assms a by (simp add: getFlatU_ok)
next
  assume a: "0 < t \<and> 0 < l1 \<and> l1 < l2"
  then have "0 < t / 1000" by simp
  then have "(t / 1000) / l2 < (t / 1000) / l1"
    using a by (intro divide_strict_left_mono) simp_all
  then have "1 / h + (t / 1000) / l2 < 1 / h + (t / 1000) / l1" by simp
  moreover have l2: "0 < l2" using a by simp
  then have "0 < 1 / h + (t / 1000) / l2"
    using assms a by (intro R_total_pos) simp_all
  ultimately have "1 / (1 / h + (t / 1000) / l1) < 1 / (1 / h + (t / 1000) / l2)"
    by (intro recip_less)
  then show "\<exists>u1 u2. getFlatU h t l1 = Inr u1 \<and> getFlatU h t l2 = Inr u2 \<and> u1 < u2"
    using assms a l2 by (simp add: getFlatU_ok)
qed

text \<open>
  The numbers of the examples below are binary64 values: rounding leaves them as
  they are, and the conductivity is the value of the literal \<open>0.036\<close>. \<open>6 + 1 / 2 ^ 50\<close>
  is the binary64 value next above 6, and \<open>1297036692682703 / 2 ^ 55\<close> the one
  next above that conductivity.
\<close>

lemma binary64_example_inputs:
  "round64 9 = Fin 9 \<and> round64 6 = Fin 6 \<and>
   round64 (6 + 1 / 2 ^ 50) = Fin (6 + 1 / 2 ^ 50) \<and>
   round64 0.036 = Fin (5188146770730811 / 2 ^ 57) \<and>
   round64 (5188146770730811 / 2 ^ 57) = Fin (5188146770730811 / 2 ^ 57) \<and>
   round64 (1297036692682703 / 2 ^ 55) = Fin (1297036692682703 / 2 ^ 55) \<and>
   1297036692682703 / 2 ^ 55 - 5188146770730811 / 2 ^ 57 = (1 / 2 ^ 57 :: real)"
  by (simp add: round64_def ilog2_def rne_def Let_def lg_eval)

text \<open>
  C8 (as the specification states it, refuted): in the arithmetic of the program the
  U-value is not strictly monotone. For \<open>h = 9\<close> and the conductivity 0.036 the
  thicknesses 6 and \<open>6 + 1 / 2 ^ 50\<close> give the same U-value, 3.5999999999999996; and
  for \<open>h = 9\<close> and the thickness 6 so do the conductivity 0.036 and the next
  larger one.
\<close>

theorem getFlatU64_not_strict_counterexample:
  "(0::real) < 9 \<and> (0::real) < 5188146770730811 / 2 ^ 57 \<and> (0::real) < 6 \<and>
   (6::real) < 6 + 1 / 2 ^ 50 \<and>
   (5188146770730811 / 2 ^ 57 :: real) < 1297036692682703 / 2 ^ 55 \<and>
   getFlatU64 9 6 (5188146770730811 / 2 ^ 57) = Inr (Fin (2026619832316723 / 2 ^ 49)) \<and>
   getFlatU64 9 (6 + 1 / 2 ^ 50) (5188146770730811 / 2 ^ 57)
     = Inr (Fin (2026619832316723 / 2 ^ 49)) \<and>
   getFlatU64 9 6 (1297036692682703 / 2 ^ 55) = Inr (Fin (2026619832316723 / 2 ^ 49))"
  by (simp add: getFlatU64_def round64_def ilog2_def rne_def Let_def lg_eval)

text \<open>
  At the other extreme, for a positive \<open>h\<close> of at most \<open>1 / 2 ^ 1024\<close> (such as
  \<open>1e-320\<close>) the quotient \<open>1 / h\<close> overflows and the U-value is 0 for every thickness
  and conductivity.
\<close>

lemma getFlatU64_overflow:
  assumes "0 < h" "h \<le> 1 / 2 ^ 1024" "0 < t" "0 < l"
  shows "getFlatU64 h t l = Inr (Fin 0)"
proof -
  have "2 ^ 1024 * h \<le> 1" using assms(1,2) by (simp add: field_simps)
  then have "(2::real) ^ 1024 \<le> 1 / h" using assms(1) by (simp add: field_simps)
  then have "round64 (1 / h) = PInf" by (intro round64_overflow) simp
  then show ?thesis using assms by (simp add: getFlatU64_def Let_def)
qed

text \<open>
  C8 (amended): computed in binary64 arithmetic, for every positive \<open>h\<close> and
  conductivity \<open>getFlatU\<close> is non-increasing in the thickness over positive
  thicknesses, and for every positive \<open>h\<close> and thickness it is non-decreasing in the
  conductivity over positive conductivities.
\<close>

theorem getFlatU64_weakly_monotone:
  assumes "0 < h"
  shows "(0 < l \<and> 0 < t1 \<and> t1 \<le> t2 \<longrightarrow>
            (\<exists>u1 u2. getFlatU64 h t1 l = Inr u1 \<and> getFlatU64 h t2 l = Inr u2 \<and> f64_le u2 u1)) \<and>
         (0 < t \<and> 0 < l1 \<and> l1 \<le> l2 \<longrightarrow>
            (\<exists>u1 u2. getFlatU64 h t l1 = Inr u1 \<and> getFlatU64 h t l2 = Inr u2 \<and> f64_le u1 u2))"
proof (intro conjI impI)
  have rc: "nonneg64 (round64 (1 / h))" using assms by (intro round64_nonneg) simp
  assume a: "0 < l \<and> 0 < t1 \<and> t1 \<le> t2"
  then have "0 \<le> t1 / 1000" "t1 / 1000 \<le> t2 / 1000" by simp_all
  then have tm: "f64_le (round64 (t1 / 1000)) (round64 (t2 / 1000))"
    "nonneg64 (round64 (t1 / 1000))"
    by (simp_all add: round64_mono round64_nonneg)
  then have "f64_le (div64 (round64 (t1 / 1000)) l) (div64 (round64 (t2 / 1000)) l)"
    using a by (intro div64_mono_left) simp_all
  moreover have ri: "nonneg64 (div64 (round64 (t1 / 1000)) l)"
    using tm(2) a by (intro div64_nonneg) simp_all
  ultimately have "f64_le (add64 (round64 (1 / h)) (div64 (round64 (t1 / 1000)) l))
                          (add64 (round64 (1 / h)) (div64 (round64 (t2 / 1000)) l))"
    using rc by (intro add64_mono_right)
  moreover have "nonneg64 (add64 (round64 (1 / h)) (div64 (round64 (t1 / 1000)) l))"
    using rc ri by (rule add64_nonneg)
  ultimately have "f64_le (recip64 (add64 (round64 (1 / h)) (div64 (round64 (t2 / 1000)) l)))
                          (recip64 (add64 (round64 (1 / h)) (div64 (round64 (t1 / 1000)) l)))"
    by (rule recip64_antimono)
  moreover have "0 < t2" using a by simp
  ultimately show "\<exists>u1 u2. getFlatU64 h t1 l = Inr u1 \<and> getFlatU64 h t2 l = Inr u2 \<and> f64_le u2 u1"
    using assms a by (simp add: getFlatU64_def Let_def)
next
  have rc: "nonneg64 (round64 (1 / h))" using assms by (intro round64_nonneg) simp
  assume a: "0 < t \<and> 0 < l1 \<and> l1 \<le> l2"
  then have tm: "nonneg64 (round64 (t / 1000))" by (intro round64_nonneg) simp
  have l2: "0 < l2" using a by simp
  have "f64_le (div64 (round64 (t / 1000)) l2) (div64 (round64 (t / 1000)) l1)"
    using tm a by (intro div64_antimono_right) simp_all
  moreover have ri: "nonneg64 (div64 (round64 (t / 1000)) l2)"
    using tm l2 by (rule div64_nonneg)
  ultimately have "f64_le (add64 (round64 (1 / h)) (div64 (round64 (t / 1000)) l2))
                          (add64 (round64 (1 / h)) (div64 (round64 (t / 1000)) l1))"
    using rc by (intro add64_mono_right)
  moreover have "nonneg64 (add64 (round64 (1 / h)) (div64 (round64 (t / 1000)) l2))"
    using rc ri by (rule add64_nonneg)
  ultimately have "f64_le (recip64 (add64 (round64 (1 / h)) (div64 (round64 (t / 1000)) l1)))
                          (recip64 (add64 (round64 (1 / h)) (div64 (round64 (t / 1000)) l2)))"
    by (rule recip64_antimono)
  then show "\<exists>u1 u2. getFlatU64 h t l1 = Inr u1 \<and> getFlatU64 h t l2 = Inr u2 \<and> f64_le u1 u2"
    using assms a l2 by (simp add: getFlatU64_def Let_def)
qed

theorem getFlatU64_weakly_monotone_witness:
  "(0::real) < 9 \<and> (0::real) < 5188146770730811 / 2 ^ 57 \<and> (0::real) < 6 \<and>
   (6::real) \<le> 6 + 1 / 2 ^ 50 \<and>
   (5188146770730811 / 2 ^ 57 :: real) \<le> 1297036692682703 / 2 ^ 55 \<and>
   (\<exists>u1 u2. getFlatU64 9 6 (5188146770730811 / 2 ^ 57) = Inr u1 \<and>
       getFlatU64 9 (6 + 1 / 2 ^ 50) (5188146770730811 / 2 ^ 57) = Inr u2 \<and> f64_le u2 u1) \<and>
   (\<exists>u1 u2. getFlatU64 9 6 (5188146770730811 / 2 ^ 57) = Inr u1 \<and>
       getFlatU64 9 6 (1297036692682703 / 2 ^ 55) = Inr u2 \<and> f64_le u1 u2)"
  using getFlatU64_weakly_monotone [of 9 "5188146770730811 / 2 ^ 57" 6 "6 + 1 / 2 ^ 50" 6
      "5188146770730811 / 2 ^ 57" "1297036692682703 / 2 ^ 55"]
  by simp

section \<open>The heat loss estimate\<close>

text \<open>
  C4: with positive area, thickness and \<open>h\<close>, \<open>computeSheetHeatLoss\<close> returns the
  conductivity at \<open>ambientTemp + 5\<close>, the U-value of \<open>getFlatU\<close> for it,
  \<open>Q = U * area * |mediumTemp - ambientTemp|\<close>, the decrease
  \<open>(Q0 - Q) / Q0 * 100\<close> against the bare-surface loss
  \<open>Q0 = (max (1.32 * dT powr 0.33) (1 / 0.13) + 0.93 * 1.428) * area * dT\<close>, and the
  cost \<open>(Q / 1000) * costPerKWh\<close>. \<open>Q0\<close> is zero exactly when the two temperatures
  are equal, where the quotient is \<open>0 / 0\<close>.
\<close>

theorem computeSheetHeatLoss_formula:
  assumes "wf_material M material" "0 < areaM2" "0 < thicknessMm" "0 < h"
  shows "let lam = interpolateSheetLambda M (ambientTemp + 5) material;
             dT = \<bar>mediumTemp - ambientTemp\<bar>;
             u = 1 / (1 / h + (thicknessMm / 1000) / lam);
             q = u * areaM2 * dT;
             q0 = (max (1.32 * (dT powr 0.33)) (1 / 0.13) + 0.93 * 1.428) * areaM2 * dT
         in getFlatU h thicknessMm lam = Inr u \<and>
            computeSheetHeatLoss M ambientTemp mediumTemp thicknessMm areaM2 material h costPerKWh
              = Inr \<lparr>meanLambda = lam, U = u, Q = q,
                      decrease = (if mediumTemp = ambientTemp then None
                                  else Some ((q0 - q) / q0 * 100)),
                      costPerHour = (q / 1000) * costPerKWh\<rparr> \<and>
            (mediumTemp \<noteq> ambientTemp \<longrightarrow> q0 \<noteq> 0)"
proof -
  define lam where "lam = interpolateSheetLambda M (ambientTemp + 5) material"
  define dT where "dT = \<bar>mediumTemp - ambientTemp\<bar>"
  define u where "u = 1 / (1 / h + (thicknessMm / 1000) / lam)"
  define q0 where "q0 = (max (1.32 * (dT powr 0.33)) (1 / 0.13) + 0.93 * 1.428) * areaM2 * dT"
  have lam: "0 < lam" unfolding lam_def using assms(1) by (rule interpolateSheetLambda_pos)
  have u: "getFlatU h thicknessMm lam = Inr u"
    unfolding u_def using assms lam by (simp add: getFlatU_ok)
  have q0: "(q0 = 0) = (mediumTemp = ambientTemp)"
    unfolding q0_def dT_def using h0_pos [of "\<bar>mediumTemp - ambientTemp\<bar>"] assms(2) by auto
  have ne: "\<not> areaM2 \<le> 0" "\<not> thicknessMm \<le> 0" "\<not> h \<le> 0"
    using assms by simp_all
  have "computeSheetHeatLoss M ambientTemp mediumTemp thicknessMm areaM2 material h costPerKWh
          = Inr \<lparr>meanLambda = lam, U = u, Q = u * areaM2 * dT,
                  decrease = (if q0 = 0 then None
                              else Some ((q0 - u * areaM2 * dT) / q0 * 100)),
                  costPerHour = (u * areaM2 * dT / 1000) * costPerKWh\<rparr>"
    unfolding computeSheetHeatLoss_def Let_def lam_def [symmetric] dT_def [symmetric]
    by (simp only: ne if_False u sum.case q0_def)
  then show ?thesis
    unfolding Let_def lam_def [symmetric] dT_def [symmetric] u_def [symmetric] q0_def [symmetric]
    using u q0 by (simp only: simp_thms if_True if_False)
qed

theorem computeSheetHeatLoss_formula_witness:
  "wf_material sample_materials ''ST'' \<and> (0::real) < 1 \<and> (0::real) < 9 \<and>
   interpolateSheetLambda sample_materials (25 + 5) ''ST'' = 0.037 \<and>
   getFlatU 9 9 0.037 = Inr (333 / 118) \<and>
   computeSheetHeatLoss sample_materials 25 26 9 1 ''ST'' 9 5
     = Inr \<lparr>meanLambda = 0.037, U = 333 / 118, Q = 333 / 118,
             decrease = Some ((11726452 / 1300000 - 333 / 118) / (11726452 / 1300000) * 100),
             costPerHour = (333 / 118) / 1000 * 5\<rparr>"
  using computeSheetHeatLoss_formula [of sample_materials "''ST''" 1 9 9 25 26 5]
  by (simp add: wf_material_def wf_lambdaData_def sample_materials_def
      interpolateSheetLambda_def Let_def)

section \<open>The recommended catalog thickness\<close>

text \<open>
  C5: with positive \<open>h\<close>, \<open>getRecommendedSheetThickness\<close> goes through the catalog
  6, 9, 10, 13, 19, 25, 32, 40, 50 in ascending order with the conductivity at
  \<open>ambientTemp\<close> and returns the first, hence smallest, thickness whose flux
  \<open>U * |mediumTemp - ambientTemp|\<close> is at most the target; when no thickness fits it
  returns 50; so a result other than 50 satisfies the target.
\<close>

theorem getRecommendedSheetThickness_first_fit:
  assumes "wf_material M material" "0 < h"
  shows "let lam = interpolateSheetLambda M ambientTemp material;
             dT = \<bar>mediumTemp - ambientTemp\<bar>;
             tgt = (case target of None \<Rightarrow> 15 | Some x \<Rightarrow> x);
             fits = (\<lambda>t. \<exists>u. getFlatU h t lam = Inr u \<and> u * dT \<le> tgt)
         in \<exists>t. getRecommendedSheetThickness M ambientTemp mediumTemp areaM2 material h target
                   = Inr t \<and>
                t \<in> set [6, 9, 10, 13, 19, 25, 32, 40, 50] \<and>
                (\<forall>t' \<in> set [6, 9, 10, 13, 19, 25, 32, 40, 50]. t' < t \<longrightarrow> \<not> fits t') \<and>
                ((\<exists>t' \<in> set [6, 9, 10, 13, 19, 25, 32, 40, 50]. fits t') \<longrightarrow> fits t) \<and>
                (\<not> fits t \<longrightarrow> t = 50) \<and>
                (t \<noteq> 50 \<longrightarrow> 1 / (1 / h + (t / 1000) / lam) * dT \<le> tgt)"
proof -
  define lam where "lam = interpolateSheetLambda M ambientTemp material"
  define dT where "dT = \<bar>mediumTemp - ambientTemp\<bar>"
  define tgt :: real where "tgt = (case target of None \<Rightarrow> 15 | Some x \<Rightarrow> x)"
  define P where "P = (\<lambda>t. 1 / (1 / h + (t / 1000) / lam) * dT \<le> tgt)"
  define fits where "fits = (\<lambda>t. \<exists>u. getFlatU h t lam = Inr u \<and> u * dT \<le> tgt)"
  have lam: "0 < lam" unfolding lam_def using assms(1) by (rule interpolateSheetLambda_pos)
  have pos: "\<forall>t \<in> set candidates. 0 < t" by (simp add: candidates_def)
  have fits: "fits t = P t" if "t \<in> set candidates" for t
  proof -
    from that pos have "0 < t" by blast
    with assms lam show ?thesis by (simp add: fits_def P_def getFlatU_ok)
  qed
  have loop: "recommend_loop h lam dT tgt candidates = Inr (find P candidates)"
    unfolding P_def using assms(2) lam pos by (rule recommend_loop_find)
  have srt: "sorted candidates" by (simp add: candidates_def)
  have l50: "last candidates = 50" "50 \<in> set candidates" by (simp_all add: candidates_def)
  have res: "getRecommendedSheetThickness M ambientTemp mediumTemp areaM2 material h target
             = Inr (case find P candidates of None \<Rightarrow> 50 | Some t \<Rightarrow> t)"
    unfolding getRecommendedSheetThickness_def Let_def lam_def [symmetric] dT_def [symmetric]
      tgt_def [symmetric]
    by (simp only: loop l50 sum.case split: option.split) simp
  have main: "\<exists>t. getRecommendedSheetThickness M ambientTemp mediumTemp areaM2 material h target
                   = Inr t \<and>
                t \<in> set candidates \<and>
                (\<forall>t' \<in> set candidates. t' < t \<longrightarrow> \<not> fits t') \<and>
                ((\<exists>t' \<in> set candidates. fits t') \<longrightarrow> fits t) \<and>
                (\<not> fits t \<longrightarrow> t = 50) \<and>
                (t \<noteq> 50 \<longrightarrow> P t)"
  proof (cases "find P candidates")
    case None
    then have no: "\<forall>t \<in> set candidates. \<not> P t" by (simp add: find_None_iff)
    then have "\<forall>t \<in> set candidates. \<not> fits t" using fits by simp
    with None res l50 show ?thesis by auto
  next
    case (Some t)
    from find_sorted_least [OF srt Some]
    have t: "t \<in> set candidates" "P t" "\<forall>y \<in> set candidates. y < t \<longrightarrow> \<not> P y" by simp_all
    then have "fits t" "\<forall>y \<in> set candidates. y < t \<longrightarrow> \<not> fits y" using fits by simp_all
    with Some res t show ?thesis by auto
  qed
  show ?thesis
    unfolding Let_def lam_def [symmetric] dT_def [symmetric] tgt_def [symmetric]
    using main [unfolded candidates_def P_def fits_def] .
qed

theorem getRecommendedSheetThickness_first_fit_witness:
  "wf_material sample_materials ''ST'' \<and> (0::real) < 9 \<and>
   interpolateSheetLambda sample_materials 25 ''ST'' = 0.0365 \<and>
   getRecommendedSheetThickness sample_materials 25 55 1 ''ST'' 9 (Some 50) = Inr 19 \<and>
   getRecommendedSheetThickness sample_materials 25 55 1 ''ST'' 9 None = Inr 50"
  using getRecommendedSheetThickness_first_fit [of sample_materials "''ST''" 9 25 55 "Some 50" 1]
  by (simp add: wf_material_def wf_lambdaData_def sample_materials_def
      getRecommendedSheetThickness_def candidates_def getFlatU_def interpolateSheetLambda_def
      Let_def)

text \<open>
  C9: with \<open>h \<le> 0\<close>, whatever the other arguments, \<open>getRecommendedSheetThickness\<close>
  returns no thickness: the validation of \<open>getFlatU\<close> on the first candidate throws
  the error for a non-positive \<open>h\<close>, an invalid-input error.
\<close>

theorem getRecommendedSheetThickness_h_nonpos:
  assumes "h \<le> 0"
  shows "getRecommendedSheetThickness M ambientTemp mediumTemp areaM2 material h target
           = Inl HNotPositive \<and> kind_of HNotPositive = InvalidInput"
  using assms
  by (simp add: getRecommendedSheetThickness_def candidates_def getFlatU_def Let_def)

theorem getRecommendedSheetThickness_h_nonpos_witness:
  "(0::real) \<le> 0 \<and>
   getRecommendedSheetThickness sample_materials 25 55 1 ''ST'' 0 None = Inl HNotPositive"
  using getRecommendedSheetThickness_h_nonpos [of 0 sample_materials 25 55 1 "''ST''" None]
  by simp

section \<open>The error contract\<close>

text \<open>
  C7 (as the specification states it, refuted): \<open>calculateMinimumSheetThickness\<close> is
  claimed to throw a physically-impossible error whenever the dew point is not below
  the ambient temperature. The check of \<open>h\<close> comes first: with \<open>h = 0\<close> and the dew
  point equal to the ambient temperature the error thrown is the invalid-input one.
\<close>

theorem minimum_thickness_error_precedence_counterexample:
  "calculateMinimumSheetThickness sample_materials 20 5 20 ''ST'' 0 None = Inl HNotPositive \<and>
   kind_of HNotPositive = InvalidInput \<and>
   kind_of HNotPositive \<noteq> PhysicallyImpossible"
  by (simp add: calculateMinimumSheetThickness_def)

text \<open>
  C7 (amended): \<open>getFlatU\<close>, \<open>computeSheetHeatLoss\<close> and
  \<open>calculateMinimumSheetThickness\<close> each throw an invalid-input error, and return
  nothing, whenever one of their parameters among \<open>h\<close>, thickness and area is not
  positive; \<open>calculateMinimumSheetThickness\<close> throws a physically-impossible error,
  and returns nothing, whenever \<open>h\<close> is positive and the dew point is not below the
  ambient temperature or the dew point plus the safety margin exceeds it.
\<close>

theorem error_contract:
  "(h \<le> 0 \<or> thicknessMm \<le> 0 \<longrightarrow>
      (\<exists>e. getFlatU h thicknessMm lambda = Inl e \<and> kind_of e = InvalidInput)) \<and>
   (areaM2 \<le> 0 \<or> thicknessMm \<le> 0 \<or> h \<le> 0 \<longrightarrow>
      (\<exists>e. computeSheetHeatLoss M ambientTemp mediumTemp thicknessMm areaM2 material h costPerKWh
             = Inl e \<and> kind_of e = InvalidInput)) \<and>
   (h \<le> 0 \<longrightarrow>
      (\<exists>e. calculateMinimumSheetThickness M ambientTemp mediumTemp dewPoint material h safetyMargin
             = Inl e \<and> kind_of e = InvalidInput)) \<and>
   (0 < h \<and> (dewPoint \<ge> ambientTemp \<or>
             dewPoint + (case safetyMargin of None \<Rightarrow> 0.3 | Some x \<Rightarrow> x) > ambientTemp) \<longrightarrow>
      (\<exists>e. calculateMinimumSheetThickness M ambientTemp mediumTemp dewPoint material h safetyMargin
             = Inl e \<and> kind_of e = PhysicallyImpossible))"
  by (simp add: getFlatU_def computeSheetHeatLoss_def calculateMinimumSheetThickness_def Let_def)

theorem error_contract_witness:
  "getFlatU 0 6 0.036 = Inl HNotPositive \<and>
   getFlatU 9 0 0.036 = Inl ThicknessNotPositive \<and>
   computeSheetHeatLoss sample_materials 25 55 6 0 ''ST'' 9 5 = Inl AreaNotPositive \<and>
   calculateMinimumSheetThickness sample_materials 25 5 12 ''ST'' 0 None = Inl HNotPositive \<and>
   calculateMinimumSheetThickness sample_materials 25 5 25 ''ST'' 9 None
     = Inl DewPointNotBelowAmbient \<and>
   calculateMinimumSheetThickness sample_materials 25 5 24.8 ''ST'' 9 None
     = Inl TargetAboveAmbient"
proof -
  have a: "\<exists>e. getFlatU 0 6 0.036 = Inl e \<and> kind_of e = InvalidInput"
    using error_contract [where h = 0 and thicknessMm = 6 and lambda = "0.036"] by simp
  have b: "\<exists>e. getFlatU 9 0 0.036 = Inl e \<and> kind_of e = InvalidInput"
    using error_contract [where h = 9 and thicknessMm = 0 and lambda = "0.036"] by simp
  have c: "\<exists>e. computeSheetHeatLoss sample_materials 25 55 6 0 ''ST'' 9 5 = Inl e
               \<and> kind_of e = InvalidInput"
    using error_contract [of 9 6 _ 0 sample_materials 25 55 "''ST''" 5] by simp
  have d: "\<exists>e. calculateMinimumSheetThickness sample_materials 25 5 12 ''ST'' 0 None = Inl e
               \<and> kind_of e = InvalidInput"
    using error_contract [where h = 0 and M = sample_materials and ambientTemp = 25
        and mediumTemp = 5 and dewPoint = 12 and material = "''ST''" and safetyMargin = None]
    by simp
  have e: "\<exists>e. calculateMinimumSheetThickness sample_materials 25 5 25 ''ST'' 9 None = Inl e
               \<and> kind_of e = PhysicallyImpossible"
    using error_contract [where h = 9 and M = sample_materials and ambientTemp = 25
        and mediumTemp = 5 and dewPoint = 25 and material = "''ST''" and safetyMargin = None]
    by simp
  have f: "\<exists>e. calculateMinimumSheetThickness sample_materials 25 5 24.8 ''ST'' 9 None = Inl e
               \<and> kind_of e = PhysicallyImpossible"
    using error_contract [where h = 9 and M = sample_materials and ambientTemp = 25
        and mediumTemp = 5 and dewPoint = "24.8" and material = "''ST''" and safetyMargin = None]
    by simp
  from a b c d e f show ?thesis
    by (simp add: getFlatU_def computeSheetHeatLoss_def calculateMinimumSheetThickness_def)
qed

section \<open>The condensation solver\<close>

text \<open>
  C6: under the preconditions of \<open>calculateMinimumSheetThickness\<close>, when the surface
  temperature at the largest searched thickness, 100 mm, is still below the dew point
  plus the safety margin, the result is exactly 50, returned without an error and
  without entering the bisection.
\<close>

theorem minimum_thickness_fallback:
  assumes "wf_material M material" "0 < h" "dewPoint < ambientTemp"
    and "dewPoint + (case safetyMargin of None \<Rightarrow> 0.3 | Some x \<Rightarrow> x) \<le> ambientTemp"
    and "surfaceTempAt ambientTemp mediumTemp
           (interpolateSheetLambda M ((ambientTemp + mediumTemp) / 2) material) (1 / h) 100
         < dewPoint + (case safetyMargin of None \<Rightarrow> 0.3 | Some x \<Rightarrow> x)"
  shows "calculateMinimumSheetThickness M ambientTemp mediumTemp dewPoint material h safetyMargin
         = Inr 50"
  using assms by (simp add: calculateMinimumSheetThickness_def Let_def maxMm_def)

theorem minimum_thickness_fallback_witness:
  "wf_material sample_materials ''ST'' \<and> (0::real) < 9 \<and> (24::real) < 25 \<and>
   (24::real) + 0.3 \<le> 25 \<and>
   surfaceTempAt 25 (-25) (interpolateSheetLambda sample_materials ((25 + (-25)) / 2) ''ST'')
     (1 / 9) 100 < 24 + 0.3 \<and>
   calculateMinimumSheetThickness sample_materials 25 (-25) 24 ''ST'' 9 None = Inr 50"
  using minimum_thickness_fallback [where M = sample_materials and material = "''ST''" and h = 9
      and dewPoint = 24 and ambientTemp = 25 and mediumTemp = "-25" and safetyMargin = None]
  by (simp add: wf_material_def wf_lambdaData_def sample_materials_def surfaceTempAt_def
      interpolateSheetLambda_def Let_def)

text \<open>
  C3 (as the specification states it, refuted): outside the fallback the result \<open>t\<close>
  is claimed to satisfy \<open>surfaceTempAt (t - 0.01) < target\<close>. With the ambient air at
  20, the medium at 60, the dew point at 10, \<open>h = 9\<close> and the default margin, every
  precondition holds and the fallback is not taken; the surface is warmer than the
  target, 10.3, at every thickness, each step of the bisection lowers \<open>hi\<close>, which
  ends at \<open>0.01 + 99.99 / 16384\<close>, and the result is 0.02, although the surface
  temperature at 0.01 is not below the target.
\<close>

theorem minimum_thickness_not_minimal_counterexample:
  "(0::real) < 9 \<and> (10::real) < 20 \<and> (10::real) + 0.3 \<le> 20 \<and>
   \<not> surfaceTempAt 20 60 (interpolateSheetLambda sample_materials ((20 + 60) / 2) ''ST'')
        (1 / 9) 100 < 10 + 0.3 \<and>
   calculateMinimumSheetThickness sample_materials 20 60 10 ''ST'' 9 None = Inr 0.02 \<and>
   \<not> surfaceTempAt 20 60 (interpolateSheetLambda sample_materials ((20 + 60) / 2) ''ST'')
        (1 / 9) (0.02 - 0.01) < 10 + 0.3"
  by (simp add: calculateMinimumSheetThickness_def interpolateSheetLambda_def sample_materials_def
      surfaceTempAt_def bisect.simps [of _ _ "x" "y" for x y] minMm_def maxMm_def step_def
      toFixed2_def Let_def)

text \<open>
  Where the surface is too cold at the lower end of the search, the bound 0.01 fails
  as well: the bisection stops at a bracket of width \<open>99.99 / 16384\<close> and its upper
  end is then rounded up to a multiple of 0.01. With the ambient air at 25, the
  medium at 15 and the dew point at 17 the target is 17.3; the upper end is just
  above 1.20, the result is 1.21, and the surface temperature at 1.20 already reaches
  the target, while at 0.01 and at 1.19 it does not.
\<close>

lemma minimum_thickness_overshoot:
  "calculateMinimumSheetThickness sample_materials 25 15 17 ''ST'' 9 None = Inr 1.21 \<and>
   surfaceTempAt 25 15 (interpolateSheetLambda sample_materials ((25 + 15) / 2) ''ST'') (1 / 9)
     0.01 < 17 + 0.3 \<and>
   \<not> surfaceTempAt 25 15 (interpolateSheetLambda sample_materials ((25 + 15) / 2) ''ST'')
        (1 / 9) (1.21 - 0.01) < 17 + 0.3 \<and>
   surfaceTempAt 25 15 (interpolateSheetLambda sample_materials ((25 + 15) / 2) ''ST'') (1 / 9)
     (1.21 - 0.02) < 17 + 0.3"
  by (simp add: calculateMinimumSheetThickness_def interpolateSheetLambda_def sample_materials_def
      surfaceTempAt_def bisect.simps [of _ _ "x" "y" for x y] minMm_def maxMm_def step_def
      toFixed2_def Let_def)

text \<open>
  C3 (amended): under the preconditions and outside the fallback, the result \<open>t\<close>
  lies between 0.02 and 100 and satisfies \<open>target \<le> surfaceTempAt t\<close>. When the
  surface temperature at the lower end of the search, 0.01 mm, is below the target,
  \<open>surfaceTempAt (t - 0.02) < target\<close>: the result exceeds the least sufficient
  thickness by less than 0.02 mm. When it is not below the target, the result is
  exactly 0.02.
\<close>

theorem minimum_thickness_solver_bracket:
  assumes wf: "wf_material M material" and h: "0 < h" and dew: "dewPoint < ambientTemp"
    and target: "target = dewPoint + (case safetyMargin of None \<Rightarrow> 0.3 | Some x \<Rightarrow> x)"
    and T: "T = surfaceTempAt ambientTemp mediumTemp
                  (interpolateSheetLambda M ((ambientTemp + mediumTemp) / 2) material) (1 / h)"
    and le: "target \<le> ambientTemp"
    and nofallback: "target \<le> T 100"
  shows "\<exists>t. calculateMinimumSheetThickness M ambientTemp mediumTemp dewPoint material h
                safetyMargin = Inr t \<and>
             0.02 \<le> t \<and> t \<le> 100 \<and>
             target \<le> T t \<and>
             (T 0.01 < target \<longrightarrow> T (t - 0.02) < target) \<and>
             (target \<le> T 0.01 \<longrightarrow> t = 0.02)"
proof -
  define lam where "lam = interpolateSheetLambda M ((ambientTemp + mediumTemp) / 2) material"
  have lam: "0 < lam" unfolding lam_def using wf by (rule interpolateSheetLambda_pos)
  have T': "T = surfaceTempAt ambientTemp mediumTemp lam (1 / h)" by (simp only: T lam_def)
  define r where "r = bisect T target minMm maxMm"
  define n where "n = \<lceil>r / step\<rceil>"
  define t where "t = real_of_int n / 100"
  have c: "\<not> h \<le> 0" "\<not> ambientTemp \<le> dewPoint"
    "\<not> ambientTemp < dewPoint + (case safetyMargin of None \<Rightarrow> 0.3 | Some x \<Rightarrow> x)"
    "\<not> T maxMm < dewPoint + (case safetyMargin of None \<Rightarrow> 0.3 | Some x \<Rightarrow> x)"
    using h dew le nofallback unfolding target maxMm_def by simp_all
  have "calculateMinimumSheetThickness M ambientTemp mediumTemp dewPoint material h safetyMargin
        = Inr (toFixed2 (real_of_int n * step))"
    unfolding calculateMinimumSheetThickness_def Let_def T [symmetric] target [symmetric]
    using c unfolding target [symmetric]
    by (simp only: if_False n_def r_def)
  moreover
  have b: "target \<le> T r" "minMm < r" "r \<le> maxMm"
    using bisect_hi [of minMm maxMm target T] nofallback
    unfolding r_def by (simp_all add: minMm_def maxMm_def)
  have n2: "2 \<le> n"
  proof -
    have "1 < r / step" using b(2) by (simp add: minMm_def step_def)
    then show ?thesis unfolding n_def by linarith
  qed
  then have res: "toFixed2 (real_of_int n * step) = t"
    unfolding t_def by (intro toFixed2_hundredths) simp
  have rt: "r \<le> t" "t < r + 0.01"
  proof -
    have "r / step \<le> real_of_int n" "real_of_int n < r / step + 1"
      unfolding n_def by linarith+
    then show "r \<le> t" "t < r + 0.01" unfolding t_def step_def by simp_all
  qed
  have t2: "0.02 \<le> t" using n2 unfolding t_def by simp
  have t100: "t \<le> 100"
  proof -
    have "r / step \<le> 10000" using b(3) by (simp add: maxMm_def step_def)
    then have "n \<le> 10000" unfolding n_def by (simp add: ceiling_le_iff)
    then show ?thesis unfolding t_def by simp
  qed
  have r0: "0 \<le> r" using b(2) by (simp add: minMm_def)
  have upper: "target \<le> T t"
  proof (cases "mediumTemp \<le> ambientTemp")
    case True
    have "T r \<le> T t" unfolding T' using h lam True r0 rt(1) by (rule surfaceTempAt_mono)
    with b(1) show ?thesis by simp
  next
    case False
    then have "ambientTemp \<le> mediumTemp" by simp
    moreover have "0 \<le> t" using t2 by simp
    ultimately have "ambientTemp \<le> T t" unfolding T' using h lam
      by (intro surfaceTempAt_heating)
    with le show ?thesis by simp
  qed
  have lower: "T (t - 0.02) < target" if below: "T 0.01 < target"
  proof -
    have cool: "mediumTemp \<le> ambientTemp"
    proof (rule ccontr)
      assume "\<not> mediumTemp \<le> ambientTemp"
      then have "ambientTemp \<le> mediumTemp" by simp
      then have "ambientTemp \<le> T 0.01" unfolding T' using h lam
        by (intro surfaceTempAt_heating) simp_all
      with le below show False by simp
    qed
    have "T minMm < target" using below by (simp add: minMm_def)
    with bisect_lo [of minMm maxMm T target]
    obtain lo' where lo': "minMm \<le> lo'" "lo' < r" "r - lo' \<le> step" "T lo' < target"
      unfolding r_def by (auto simp: minMm_def maxMm_def)
    have "0 \<le> t - 0.02" using t2 by simp
    moreover have "t - 0.02 \<le> lo'" using rt(2) lo'(3) by (simp add: step_def)
    ultimately have "T (t - 0.02) \<le> T lo'" unfolding T' using h lam cool
      by (intro surfaceTempAt_mono)
    with lo'(4) show ?thesis by simp
  qed
  have least: "t = 0.02" if above: "target \<le> T 0.01"
  proof -
    have "target \<le> T x" if x: "minMm < x \<and> x \<le> maxMm" for x
    proof (cases "mediumTemp \<le> ambientTemp")
      case True
      have "(0::real) \<le> 0.01" "0.01 \<le> x" using x by (simp_all add: minMm_def)
      with h lam True have "T 0.01 \<le> T x" unfolding T' by (intro surfaceTempAt_mono)
      with above show ?thesis by simp
    next
      case False
      then have "ambientTemp \<le> mediumTemp" by simp
      moreover have "0 \<le> x" using x by (simp add: minMm_def)
      ultimately have "ambientTemp \<le> T x" unfolding T' using h lam
        by (intro surfaceTempAt_heating)
      with le show ?thesis by simp
    qed
    then have "\<forall>x. minMm < x \<and> x \<le> maxMm \<longrightarrow> target \<le> T x" by blast
    with bisect_all_above [of minMm maxMm target T]
    have "minMm < r" "r \<le> minMm + step"
      unfolding r_def by (simp_all add: minMm_def maxMm_def)
    then have "1 < r / step" "r / step \<le> 2" by (simp_all add: minMm_def step_def)
    then have "n = 2" unfolding n_def by linarith
    then show ?thesis unfolding t_def by simp
  qed
  from calculation res t2 t100 upper lower least show ?thesis by auto
qed

theorem minimum_thickness_solver_bracket_witness:
  "wf_material sample_materials ''ST'' \<and> (0::real) < 9 \<and>
   ((17::real) < 25 \<and> (17.3::real) \<le> 25 \<and>
    17.3 \<le> surfaceTempAt 25 15 (interpolateSheetLambda sample_materials ((25 + 15) / 2) ''ST'') (1 / 9) 100 \<and>
    calculateMinimumSheetThickness sample_materials 25 15 17 ''ST'' 9 None = Inr 1.21 \<and>
    17.3 \<le> surfaceTempAt 25 15 (interpolateSheetLambda sample_materials ((25 + 15) / 2) ''ST'') (1 / 9) 1.21 \<and>
    surfaceTempAt 25 15 (interpolateSheetLambda sample_materials ((25 + 15) / 2) ''ST'') (1 / 9) 0.01 < 17.3 \<and>
    surfaceTempAt 25 15 (interpolateSheetLambda sample_materials ((25 + 15) / 2) ''ST'') (1 / 9) (1.21 - 0.02) < 17.3) \<and>
   ((10::real) < 20 \<and> (10.3::real) \<le> 20 \<and>
    10.3 \<le> surfaceTempAt 20 60 (interpolateSheetLambda sample_materials ((20 + 60) / 2) ''ST'') (1 / 9) 100 \<and>
    10.3 \<le> surfaceTempAt 20 60 (interpolateSheetLambda sample_materials ((20 + 60) / 2) ''ST'') (1 / 9) 0.01 \<and>
    calculateMinimumSheetThickness sample_materials 20 60 10 ''ST'' 9 None = Inr 0.02)"
proof -
  have cold: "\<exists>t. calculateMinimumSheetThickness sample_materials 25 15 17 ''ST'' 9 None = Inr t \<and>
                 0.02 \<le> t \<and> t \<le> 100 \<and>
                 17.3 \<le> surfaceTempAt 25 15 (interpolateSheetLambda sample_materials ((25 + 15) / 2) ''ST'') (1 / 9) t \<and>
                 (surfaceTempAt 25 15 (interpolateSheetLambda sample_materials ((25 + 15) / 2) ''ST'') (1 / 9) 0.01 < 17.3 \<longrightarrow>
                    surfaceTempAt 25 15 (interpolateSheetLambda sample_materials ((25 + 15) / 2) ''ST'') (1 / 9) (t - 0.02) < 17.3) \<and>
                 (17.3 \<le> surfaceTempAt 25 15 (interpolateSheetLambda sample_materials ((25 + 15) / 2) ''ST'') (1 / 9) 0.01 \<longrightarrow> t = 0.02)"
    by (rule minimum_thickness_solver_bracket [where M = sample_materials
          and material = "''ST''" and h = 9 and dewPoint = 17 and ambientTemp = 25
          and mediumTemp = 15 and safetyMargin = None and target = "17.3"
          and T = "surfaceTempAt 25 15 (interpolateSheetLambda sample_materials ((25 + 15) / 2) ''ST'') (1 / 9)"])
       (simp_all add: wf_material_def wf_lambdaData_def interpolateSheetLambda_def
          sample_materials_def surfaceTempAt_def Let_def)
  have warm: "\<exists>t. calculateMinimumSheetThickness sample_materials 20 60 10 ''ST'' 9 None = Inr t \<and>
                 0.02 \<le> t \<and> t \<le> 100 \<and>
                 10.3 \<le> surfaceTempAt 20 60 (interpolateSheetLambda sample_materials ((20 + 60) / 2) ''ST'') (1 / 9) t \<and>
                 (surfaceTempAt 20 60 (interpolateSheetLambda sample_materials ((20 + 60) / 2) ''ST'') (1 / 9) 0.01 < 10.3 \<longrightarrow>
                    surfaceTempAt 20 60 (interpolateSheetLambda sample_materials ((20 + 60) / 2) ''ST'') (1 / 9) (t - 0.02) < 10.3) \<and>
                 (10.3 \<le> surfaceTempAt 20 60 (interpolateSheetLambda sample_materials ((20 + 60) / 2) ''ST'') (1 / 9) 0.01 \<longrightarrow> t = 0.02)"
    by (rule minimum_thickness_solver_bracket [where M = sample_materials
          and material = "''ST''" and h = 9 and dewPoint = 10 and ambientTemp = 20
          and mediumTemp = 60 and safetyMargin = None and target = "10.3"
          and T = "surfaceTempAt 20 60 (interpolateSheetLambda sample_materials ((20 + 60) / 2) ''ST'') (1 / 9)"])
       (simp_all add: wf_material_def wf_lambdaData_def interpolateSheetLambda_def
          sample_materials_def surfaceTempAt_def Let_def)
  from cold warm show ?thesis
    by (simp add: wf_material_def wf_lambdaData_def calculateMinimumSheetThickness_def
        interpolateSheetLambda_def sample_materials_def surfaceTempAt_def
        bisect.simps [of _ _ "x" "y" for x y] minMm_def maxMm_def step_def toFixed2_def Let_def)
qed

end
